theory Spec2Isabelle
  imports Complex_Main "HOL-Library.Word"
begin

section \<open>Marker generation servers of the AR engine\<close>

text \<open>
  The repository holds four near-identical Express servers and one browser client:
  \<^item> the memory-storage server with \<open>generateRealPattFile\<close> (first file of part 000),
  \<^item> the disk-storage server whose \<open>generatePattFile\<close> writes a random demo pattern
    (second file of part 000),
  \<^item> the memory-storage server with the bordered target and \<open>generatePattFile\<close>
    (part 001),
  \<^item> the MindAR server with \<open>compileMindARTarget\<close> (second file of app.js),
  \<^item> the browser client (first file of app.js).
  Image decoding, resampling and encoding are done by the sharp library: the model
  gives the sizes and formats sharp documents and leaves its pixel arithmetic open.
\<close>

subsection \<open>Strings and numbers as JavaScript prints them\<close>

type_synonym byte = "8 word"

definition NL :: char where
  "NL = CHR 0x0A"

definition SP :: char where
  "SP = CHR '' ''"

definition digit_char :: "nat \<Rightarrow> char" where
  "digit_char d = char_of (48 + d)"

text \<open>\<open>Number.prototype.toString\<close> on a non-negative integer: its decimal digits.\<close>

fun toString :: "nat \<Rightarrow> string" where
  "toString n = (if n < 10 then [digit_char n] else toString (n div 10) @ [digit_char (n mod 10)])"

declare toString.simps [simp del]

text \<open>\<open>String.prototype.padStart\<close> with a one-character filler.\<close>

definition padStart :: "nat \<Rightarrow> char \<Rightarrow> string \<Rightarrow> string" where
  "padStart n c s = replicate (n - length s) c @ s"

text \<open>\<open>Array.prototype.join\<close>.\<close>

fun join :: "string \<Rightarrow> string list \<Rightarrow> string" where
  "join sep [] = []"
| "join sep [s] = s"
| "join sep (s # t # ts) = s @ sep @ join sep (t # ts)"

subsection \<open>Errors and loops\<close>

datatype js_error =
    TypeError
  | DecodeError
  | WriteError
  | CompileError
  | UploadError
  | LimitError
  | CompositeError

text \<open>A \<open>for\<close> loop over the given indices; a \<open>throw\<close> in the body leaves the loop.\<close>

fun for_each :: "nat list \<Rightarrow> (nat \<Rightarrow> 's \<Rightarrow> js_error + 's) \<Rightarrow> 's \<Rightarrow> js_error + 's" where
  "for_each [] body s = Inr s"
| "for_each (i # is) body s =
     (case body i s of Inl e \<Rightarrow> Inl e | Inr s' \<Rightarrow> for_each is body s')"

subsection \<open>The raw pixel buffer and the pattern text\<close>

text \<open>
  What \<open>sharp(...).resize(16, 16, ...).raw().toBuffer({ resolveWithObject: true })\<close>
  resolves to: the bytes in \<open>data\<close> and the channel count in \<open>info.channels\<close>.
\<close>

record raw_image =
  data :: "byte list"
  channels :: nat

text \<open>Reading a \<open>Buffer\<close> by index: \<open>undefined\<close> out of range.\<close>

definition buf_get :: "byte list \<Rightarrow> nat \<Rightarrow> byte option" where
  "buf_get d i = (if i < length d then Some (d ! i) else None)"

definition pixelIndex :: "raw_image \<Rightarrow> nat \<Rightarrow> nat \<Rightarrow> nat" where
  "pixelIndex img y x = (y * 16 + x) * channels img"

text \<open>
  The body of the inner loop: \<open>value.toString()\<close> throws a TypeError when
  \<open>value\<close> is \<open>undefined\<close>.
\<close>

definition push_value :: "raw_image \<Rightarrow> nat \<Rightarrow> nat \<Rightarrow> nat \<Rightarrow> string list \<Rightarrow> js_error + string list" where
  "push_value img channel y x row =
     (case buf_get (data img) (pixelIndex img y x + channel) of
        None \<Rightarrow> Inl TypeError
      | Some v \<Rightarrow> Inr (row @ [padStart 3 SP (toString (unat v))]))"

definition push_row :: "raw_image \<Rightarrow> nat \<Rightarrow> nat \<Rightarrow> string \<Rightarrow> js_error + string" where
  "push_row img channel y pattern =
     (case for_each [0..<16] (push_value img channel y) [] of
        Inl e \<Rightarrow> Inl e
      | Inr row \<Rightarrow> Inr (pattern @ join [SP] row @ [NL]))"

definition push_channel :: "raw_image \<Rightarrow> nat \<Rightarrow> string \<Rightarrow> js_error + string" where
  "push_channel img channel pattern =
     (case for_each [0..<16] (push_row img channel) pattern of
        Inl e \<Rightarrow> Inl e
      | Inr p \<Rightarrow> Inr (if channel < 2 then p @ [NL] else p))"

text \<open>
  The three nested loops of \<open>generateRealPattFile\<close> and of \<open>generatePattFile\<close>
  (part 001), which are the same text: the pattern string handed to \<open>fs.writeFile\<close>.
\<close>

definition pattern_of :: "raw_image \<Rightarrow> js_error + string" where
  "pattern_of img = for_each [0..<3] (push_channel img) []"

subsection \<open>Reading a pattern file back\<close>

text \<open>
  \<open>String.prototype.split\<close> on a one-character separator: a text that ends with the
  separator has an empty last piece.
\<close>

fun split_on :: "char \<Rightarrow> string \<Rightarrow> string list" where
  "split_on c [] = [[]]"
| "split_on c (x # xs) =
     (if x = c then [] # split_on c xs
      else (case split_on c xs of [] \<Rightarrow> [[x]] | l # ls \<Rightarrow> (x # l) # ls))"

text \<open>The sixteen fields of a row: three characters every four columns.\<close>

definition fields_of :: "string \<Rightarrow> string list" where
  "fields_of row = map (\<lambda>k. take 3 (drop (4 * k) row)) [0..<16]"

definition is_digit :: "char \<Rightarrow> bool" where
  "is_digit c = (48 \<le> (of_char c :: nat) \<and> (of_char c :: nat) \<le> 57)"

definition digit_val :: "char \<Rightarrow> nat" where
  "digit_val c = of_char c - 48"

text \<open>A field read as a decimal integer; nothing when it is not a digit string.\<close>

definition parseInt :: "string \<Rightarrow> nat option" where
  "parseInt s =
     (if s \<noteq> [] \<and> list_all is_digit s
      then Some (foldl (\<lambda>a c. 10 * a + digit_val c) 0 s) else None)"

text \<open>The whitespace-separated fields of a row.\<close>

definition words_of :: "string \<Rightarrow> string list" where
  "words_of s = filter (\<lambda>w. w \<noteq> []) (split_on SP s)"

text \<open>A blank line holds nothing but spaces.\<close>

definition blank :: "string \<Rightarrow> bool" where
  "blank l = list_all (\<lambda>c. c = SP) l"

text \<open>
  A field of width three: a decimal number of at most 255, right-aligned, with spaces
  before it.
\<close>

definition field_ok :: "string \<Rightarrow> bool" where
  "field_ok f =
     (case parseInt (dropWhile (\<lambda>c. c = SP) f) of
        None \<Rightarrow> False
      | Some v \<Rightarrow> v \<le> 255 \<and> f = padStart 3 SP (toString v))"

text \<open>
  A data row: 63 characters that are sixteen such fields, every one three characters
  wide, joined by single spaces; split at whitespace it has sixteen fields too.
\<close>

definition data_row :: "string \<Rightarrow> bool" where
  "data_row r =
     (length r = 63
      \<and> join [SP] (fields_of r) = r
      \<and> list_all (\<lambda>f. length f = 3 \<and> field_ok f) (fields_of r)
      \<and> length (words_of r) = 16)"

fun sequence :: "'a option list \<Rightarrow> 'a list option" where
  "sequence [] = Some []"
| "sequence (None # xs) = None"
| "sequence (Some x # xs) = (case sequence xs of None \<Rightarrow> None | Some ys \<Rightarrow> Some (x # ys))"

definition parse_row :: "string \<Rightarrow> nat list option" where
  "parse_row row = sequence (map parseInt (words_of row))"

text \<open>
  The reader of the round-trip property: rows split at newlines, blank lines skipped,
  each field read as a decimal integer.
\<close>

definition parse_pattern :: "string \<Rightarrow> nat list list option" where
  "parse_pattern text = sequence (map parse_row (filter (\<lambda>l. \<not> blank l) (split_on NL text)))"

text \<open>The bytes the loops visit, in their order; used to state what the text holds.\<close>

definition cell_ok :: "raw_image \<Rightarrow> nat \<Rightarrow> nat \<Rightarrow> nat \<Rightarrow> bool" where
  "cell_ok img channel y x = (pixelIndex img y x + channel < length (data img))"

definition all_cells_ok :: "raw_image \<Rightarrow> bool" where
  "all_cells_ok img = (\<forall>c<3. \<forall>y<16. \<forall>x<16. cell_ok img c y x)"

definition cell_value :: "raw_image \<Rightarrow> nat \<Rightarrow> nat \<Rightarrow> nat \<Rightarrow> nat" where
  "cell_value img channel y x = unat (data img ! (pixelIndex img y x + channel))"

definition cell_text :: "raw_image \<Rightarrow> nat \<Rightarrow> nat \<Rightarrow> nat \<Rightarrow> string" where
  "cell_text img channel y x =
     padStart 3 SP (toString (unat (data img ! (pixelIndex img y x + channel))))"

definition row_text :: "raw_image \<Rightarrow> nat \<Rightarrow> nat \<Rightarrow> string" where
  "row_text img channel y = join [SP] (map (cell_text img channel y) [0..<16])"

definition block_rows :: "raw_image \<Rightarrow> nat \<Rightarrow> string list" where
  "block_rows img channel = map (row_text img channel) [0..<16]"

definition block_text :: "raw_image \<Rightarrow> nat \<Rightarrow> string" where
  "block_text img channel = concat (map (\<lambda>y. row_text img channel y @ [NL]) [0..<16])"

text \<open>The pattern grid: 3 channel blocks of 16 rows of 16 values, as 48 rows.\<close>

definition grid_of :: "raw_image \<Rightarrow> nat list list" where
  "grid_of img =
     concat (map (\<lambda>channel. map (\<lambda>y. map (cell_value img channel y) [0..<16]) [0..<16]) [0..<3])"

subsection \<open>Images and the sharp library\<close>

text \<open>
  A decoded raster: \<open>px img x y c\<close> is the byte of band \<open>c\<close> at column \<open>x\<close>, row
  \<open>y\<close>. A colour JPEG has 3 bands, a greyscale one 1, a PNG with alpha 4.
\<close>

record image =
  width :: nat
  height :: nat
  bands :: nat
  px :: "nat \<Rightarrow> nat \<Rightarrow> nat \<Rightarrow> byte"

datatype format = JPEG | PNG

text \<open>
  The content of a buffer or file: an image file, standing for the raster it decodes
  to, or bytes that are no image (text, a compiled target, anything else).
\<close>

datatype buffer = Encoded format image | Raw string

datatype fit = Cover | Fill | Inside

datatype kernel = Nearest | Lanczos3

text \<open>
  The options object of \<open>resize\<close>; a key the source leaves out is \<open>None\<close>, and
  sharp then takes its default: kernel \<open>lanczos3\<close>, \<open>withoutEnlargement\<close> false.
\<close>

record resize_options =
  fit :: fit
  kernel :: "kernel option"
  withoutEnlargement :: "bool option"

definition kernel_of :: "resize_options \<Rightarrow> kernel" where
  "kernel_of opts = (case kernel opts of None \<Rightarrow> Lanczos3 | Some k \<Rightarrow> k)"

definition may_enlarge :: "resize_options \<Rightarrow> bool" where
  "may_enlarge opts = (case withoutEnlargement opts of None \<Rightarrow> True | Some b \<Rightarrow> \<not> b)"

text \<open>
  What sharp computes with pixel values is left open: the kernels, the JPEG codec and
  the blending of half-transparent pixels are parameters.
\<close>

record sharp_lib =
  resample :: "fit \<Rightarrow> kernel \<Rightarrow> nat \<Rightarrow> nat \<Rightarrow> image \<Rightarrow> nat \<Rightarrow> nat \<Rightarrow> nat \<Rightarrow> byte"
  jpeg_codec :: "nat \<Rightarrow> image \<Rightarrow> nat \<Rightarrow> nat \<Rightarrow> nat \<Rightarrow> byte"
  blend :: "(nat \<Rightarrow> byte) \<Rightarrow> (nat \<Rightarrow> byte) \<Rightarrow> nat \<Rightarrow> byte"

definition div_round :: "nat \<Rightarrow> nat \<Rightarrow> nat" where
  "div_round a b = (2 * a + b) div (2 * b)"

text \<open>
  The output size of \<open>resize(W, H, opts)\<close> on a \<open>w\<close> by \<open>h\<close> image, as sharp
  documents its fit modes: \<open>cover\<close> and \<open>fill\<close> give the requested box,
  \<open>inside\<close> scales by the smaller of \<open>W / w\<close> and \<open>H / h\<close>, and
  \<open>withoutEnlargement\<close> keeps every scale factor at 1 or below.
\<close>

definition resize_dims :: "resize_options \<Rightarrow> nat \<Rightarrow> nat \<Rightarrow> nat \<Rightarrow> nat \<Rightarrow> nat \<times> nat" where
  "resize_dims opts W H w h =
     (case fit opts of
        Inside \<Rightarrow>
          (if \<not> may_enlarge opts \<and> w \<le> W \<and> h \<le> H then (w, h)
           else if W * h \<le> H * w then (W, max 1 (div_round (h * W) w))
           else (max 1 (div_round (w * H) h), H))
      | _ \<Rightarrow> (if may_enlarge opts then (W, H) else (min W w, min H h)))"

definition sharp_resize :: "sharp_lib \<Rightarrow> resize_options \<Rightarrow> nat \<Rightarrow> nat \<Rightarrow> image \<Rightarrow> image" where
  "sharp_resize lib opts W H img =
     (let (w', h') = resize_dims opts W H (width img) (height img)
      in \<lparr>width = w', height = h', bands = bands img,
          px = resample lib (fit opts) (kernel_of opts) w' h' img\<rparr>)"

text \<open>\<open>sharp(input)\<close> on a buffer that holds no image rejects with an error.\<close>

definition sharp :: "buffer \<Rightarrow> js_error + format \<times> image" where
  "sharp b = (case b of Encoded fmt img \<Rightarrow> Inr (fmt, img) | Raw _ \<Rightarrow> Inl DecodeError)"

text \<open>
  sharp converts what it writes to sRGB: a greyscale image leaves as three equal colour
  channels, a greyscale image with alpha as four.
\<close>

definition srgb_bands :: "nat \<Rightarrow> nat" where
  "srgb_bands b = (if b = 1 then 3 else if b = 2 then 4 else b)"

definition srgb_at :: "image \<Rightarrow> nat \<Rightarrow> nat \<Rightarrow> nat \<Rightarrow> byte" where
  "srgb_at img x y c =
     (if bands img = 1 then px img x y 0
      else if bands img = 2 then (if c = 3 then px img x y 1 else px img x y 0)
      else px img x y c)"

text \<open>JPEG has no alpha band: \<open>.jpeg()\<close> drops it.\<close>

definition jpeg_bands :: "nat \<Rightarrow> nat" where
  "jpeg_bands b = (if srgb_bands b = 4 then 3 else srgb_bands b)"

definition jpeg_image :: "sharp_lib \<Rightarrow> nat \<Rightarrow> image \<Rightarrow> image" where
  "jpeg_image lib quality img =
     \<lparr>width = width img, height = height img, bands = jpeg_bands (bands img),
      px = jpeg_codec lib quality img\<rparr>"

text \<open>\<open>toBuffer()\<close> with no output format keeps the input's; JPEG quality is then 80.\<close>

definition reencode :: "sharp_lib \<Rightarrow> format \<Rightarrow> image \<Rightarrow> image" where
  "reencode lib fmt img = (case fmt of JPEG \<Rightarrow> jpeg_image lib 80 img | PNG \<Rightarrow> img)"

text \<open>
  \<open>.raw().toBuffer({ resolveWithObject: true })\<close>: rows of pixels of channels, in
  sRGB.
\<close>

definition to_raw :: "image \<Rightarrow> raw_image" where
  "to_raw img =
     \<lparr>data = concat (map (\<lambda>y. concat (map (\<lambda>x. map (srgb_at img x y) [0..<srgb_bands (bands img)])
                                           [0..<width img]))
                [0..<height img]),
      channels = srgb_bands (bands img)\<rparr>"

text \<open>\<open>sharp(input).resize(W, H, opts).jpeg({ quality }).toBuffer()\<close>.\<close>

definition resize_to_jpeg ::
  "sharp_lib \<Rightarrow> resize_options \<Rightarrow> nat \<Rightarrow> nat \<Rightarrow> nat \<Rightarrow> buffer \<Rightarrow> js_error + buffer" where
  "resize_to_jpeg lib opts W H quality input =
     (case sharp input of
        Inl e \<Rightarrow> Inl e
      | Inr (fmt, img) \<Rightarrow> Inr (Encoded JPEG (jpeg_image lib quality (sharp_resize lib opts W H img))))"

text \<open>The options objects the servers pass to \<open>resize\<close>, as written in the source.\<close>

definition real_patt_options :: resize_options where
  \<comment> \<open>\<open>{ kernel: sharp.kernel.nearest, fit: 'fill' }\<close> in \<open>generateRealPattFile\<close>\<close>
  "real_patt_options = \<lparr>fit = Fill, kernel = Some Nearest, withoutEnlargement = None\<rparr>"

definition patt_options :: resize_options where
  \<comment> \<open>\<open>{ fit: 'fill' }\<close> in \<open>generatePattFile\<close> of part 001\<close>
  "patt_options = \<lparr>fit = Fill, kernel = None, withoutEnlargement = None\<rparr>"

definition cover_options :: resize_options where
  \<comment> \<open>\<open>{ fit: 'cover' }\<close> in the first server of part 000 and in \<open>createTargetImage\<close>\<close>
  "cover_options = \<lparr>fit = Cover, kernel = None, withoutEnlargement = None\<rparr>"

definition inside_options :: resize_options where
  \<comment> \<open>\<open>{ fit: 'inside' }\<close> in part 001 and in the disk-storage server\<close>
  "inside_options = \<lparr>fit = Inside, kernel = None, withoutEnlargement = None\<rparr>"

definition mind_options :: resize_options where
  \<comment> \<open>\<open>{ fit: 'inside', withoutEnlargement: true }\<close> in the MindAR server\<close>
  "mind_options = \<lparr>fit = Inside, kernel = None, withoutEnlargement = Some True\<rparr>"

subsection \<open>Files and the console\<close>

text \<open>The messages of the source are Korean; the model gives them in English.\<close>

datatype log_entry = Info string | Failure string js_error

record world =
  files :: "string \<Rightarrow> buffer option"
  write_fails :: "string \<Rightarrow> bool"
  console :: "log_entry list"

definition console_log :: "string \<Rightarrow> world \<Rightarrow> world" where
  "console_log msg w = w\<lparr>console := console w @ [Info msg]\<rparr>"

definition console_error :: "string \<Rightarrow> js_error \<Rightarrow> world \<Rightarrow> world" where
  "console_error msg e w = w\<lparr>console := console w @ [Failure msg e]\<rparr>"

text \<open>\<open>fs.writeFile\<close>: rejects where the path cannot be written.\<close>

definition writeFile :: "string \<Rightarrow> buffer \<Rightarrow> world \<Rightarrow> js_error + world" where
  "writeFile path content w =
     (if write_fails w path then Inl WriteError
      else Inr (w\<lparr>files := (files w)(path \<mapsto> content)\<rparr>))"

subsection \<open>Writing the pattern file\<close>

text \<open>\<open>generateRealPattFile\<close> (first server of part 000): logs and rethrows.\<close>

definition generateRealPattFile ::
  "sharp_lib \<Rightarrow> buffer \<Rightarrow> string \<Rightarrow> world \<Rightarrow> (js_error + unit) \<times> world" where
  "generateRealPattFile lib imageBuffer outputPath w =
     (case sharp imageBuffer of
        Inl e \<Rightarrow> (Inl e, console_error ''.patt generation error'' e w)
      | Inr (fmt, img) \<Rightarrow>
          (let raw = to_raw (sharp_resize lib real_patt_options 16 16 img);
               w1 = console_log ''image data extracted'' w
           in case pattern_of raw of
                Inl e \<Rightarrow> (Inl e, console_error ''.patt generation error'' e w1)
              | Inr pattern \<Rightarrow>
                  (case writeFile outputPath (Raw pattern) w1 of
                     Inl e \<Rightarrow> (Inl e, console_error ''.patt generation error'' e w1)
                   | Inr w2 \<Rightarrow> (Inr (), console_log ''.patt file created'' w2))))"

text \<open>\<open>generatePattFile\<close> (part 001): no kernel in the options, no logging.\<close>

definition generatePattFile :: "sharp_lib \<Rightarrow> buffer \<Rightarrow> string \<Rightarrow> world \<Rightarrow> js_error + world" where
  "generatePattFile lib imageBuffer outputPath w =
     (case sharp imageBuffer of
        Inl e \<Rightarrow> Inl e
      | Inr (fmt, img) \<Rightarrow>
          (let raw = to_raw (sharp_resize lib patt_options 16 16 img)
           in case pattern_of raw of
                Inl e \<Rightarrow> Inl e
              | Inr pattern \<Rightarrow> writeFile outputPath (Raw pattern) w))"

subsection \<open>The random demo pattern of the disk-storage server\<close>

text \<open>
  \<open>Math.random()\<close> draws from a source the program does not control: the model takes
  the sequence of draws as an argument and hands back the rest.
\<close>

type_synonym rng = "nat \<Rightarrow> rat"

definition Math_random :: "rng \<Rightarrow> rat \<times> rng" where
  "Math_random g = (g 0, \<lambda>n. g (Suc n))"

definition push_random :: "nat \<Rightarrow> string list \<times> rng \<Rightarrow> string list \<times> rng" where
  "push_random x s =
     (let (r, g') = Math_random (snd s);
          value = nat \<lfloor>r * 256\<rfloor>
      in (fst s @ [padStart 3 SP (toString value)], g'))"

definition random_row :: "nat \<Rightarrow> string \<times> rng \<Rightarrow> string \<times> rng" where
  "random_row y s =
     (let (row, g') = fold push_random [0..<16] ([], snd s)
      in (fst s @ join [SP] row @ [NL], g'))"

definition random_channel :: "nat \<Rightarrow> string \<times> rng \<Rightarrow> string \<times> rng" where
  "random_channel i s =
     (let (p, g') = fold random_row [0..<16] s
      in (if i < 2 then p @ [NL] else p, g'))"

definition generateSimplePattern :: "rng \<Rightarrow> string \<times> rng" where
  "generateSimplePattern g = fold random_channel [0..<3] ([], g)"

text \<open>\<open>generatePattFile\<close> of the disk-storage server: the image path is not read.\<close>

definition generatePattFile_disk ::
  "rng \<Rightarrow> string \<Rightarrow> string \<Rightarrow> world \<Rightarrow> (js_error + world) \<times> rng" where
  "generatePattFile_disk g imagePath outputPath w =
     (let (pattern, g') = generateSimplePattern g
      in (writeFile outputPath (Raw pattern) w, g'))"

subsection \<open>The layout of a pattern file\<close>

text \<open>
  The lines of a pattern text, split at newlines: 16 data rows, a blank line, 16 data
  rows, a blank line, 16 data rows, and the empty piece after the last newline; in all
  48 rows that are not blank and 2 blank lines before the end.
\<close>

definition patt_layout :: "string \<Rightarrow> bool" where
  "patt_layout p =
     (let ls = split_on NL p
      in length ls = 51
       \<and> list_all data_row (take 16 ls)
       \<and> ls ! 16 = []
       \<and> list_all data_row (take 16 (drop 17 ls))
       \<and> ls ! 33 = []
       \<and> list_all data_row (take 16 (drop 34 ls))
       \<and> drop 50 ls = [[]]
       \<and> length (filter (\<lambda>l. \<not> blank l) ls) = 48
       \<and> length (filter blank (butlast ls)) = 2)"

subsection \<open>Reading a pattern file back into the grid\<close>

text \<open>
  The text reads back as the pattern grid of a 16 by 16 image: the reader accepts it
  and gives 48 rows (3 channel blocks of 16) of 16 values, 768 in all, each at most
  255, and the value in block \<open>c\<close>, row \<open>y\<close>, column \<open>x\<close> is the byte of channel
  \<open>c\<close> of the pixel in column \<open>x\<close>, row \<open>y\<close> of the image.
\<close>

definition reads_back :: "string \<Rightarrow> image \<Rightarrow> bool" where
  "reads_back p im =
     (case parse_pattern p of
        None \<Rightarrow> False
      | Some g \<Rightarrow>
          length g = 48
          \<and> (\<forall>row\<in>set g. length row = 16 \<and> (\<forall>v\<in>set row. v \<le> 255))
          \<and> length (concat g) = 768
          \<and> (\<forall>c<3. \<forall>y<16. \<forall>x<16. g ! (c * 16 + y) ! x = unat (srgb_at im x y c)))"

subsection \<open>The upload filter\<close>

text \<open>The file multer hands to \<open>fileFilter\<close> and, once accepted, to the handler.\<close>

record upload =
  originalname :: string
  mimetype :: string
  buffer :: buffer
  size_f :: nat

definition toLowerCase :: "string \<Rightarrow> string" where
  "toLowerCase s =
     map (\<lambda>c. let n = (of_char c :: nat) in if 65 \<le> n \<and> n \<le> 90 then char_of (n + 32) else c) s"

text \<open>
  \<open>path.extname\<close>: from the last dot of the last path segment to the end, trailing
  slashes aside; empty when there is no dot, when the only dot leads the segment, and
  for the segment \<open>..\<close>.
\<close>

definition basename :: "string \<Rightarrow> string" where
  "basename p = last (split_on CHR ''/'' (rev (dropWhile (\<lambda>c. c = CHR ''/'') (rev p))))"

definition extname :: "string \<Rightarrow> string" where
  "extname p =
     (let b = basename p;
          parts = split_on CHR ''.'' b;
          dot = length b - length (last parts) - 1
      in if length parts < 2 \<or> b = ''..'' \<or> dot = 0 then [] else drop dot b)"

text \<open>\<open>RegExp.prototype.test\<close> for a pattern of plain alternatives: a substring search.\<close>

fun contains :: "string \<Rightarrow> string \<Rightarrow> bool" where
  "contains pat [] = (pat = [])"
| "contains pat (x # xs) = (take (length pat) (x # xs) = pat \<or> contains pat xs)"

definition allowedTypes_test :: "string \<Rightarrow> bool" where
  "allowedTypes_test s = (contains ''jpeg'' s \<or> contains ''jpg'' s \<or> contains ''png'' s)"

text \<open>
  \<open>fileFilter\<close> of both servers of part 000 and of part 001: \<open>True\<close> is
  \<open>cb(null, true)\<close>, \<open>False\<close> is \<open>cb(new Error(...))\<close>.
\<close>

definition fileFilter :: "upload \<Rightarrow> bool" where
  "fileFilter file =
     (let extname = allowedTypes_test (toLowerCase (extname (originalname file)));
          mimetype = allowedTypes_test (mimetype file)
      in mimetype \<and> extname)"

datatype server = MemoryCover | DiskDemo | MemoryBordered | MindAR

text \<open>The \<open>multer\<close> options of each server: the MindAR server sets no \<open>fileFilter\<close>.\<close>

definition upload_filter :: "server \<Rightarrow> (upload \<Rightarrow> bool) option" where
  "upload_filter srv = (case srv of MindAR \<Rightarrow> None | _ \<Rightarrow> Some fileFilter)"

text \<open>
  \<open>upload.single('image')\<close> with \<open>limits: { fileSize: 10 * 1024 * 1024 }\<close>: the
  request's file part, if any, passes the filter and the size limit and becomes
  \<open>req.file\<close>, or the middleware fails.
\<close>

definition multer_single :: "(upload \<Rightarrow> bool) option \<Rightarrow> upload option \<Rightarrow> js_error + upload option" where
  "multer_single flt part =
     (case part of
        None \<Rightarrow> Inr None
      | Some f \<Rightarrow>
          (if (case flt of None \<Rightarrow> False | Some accept \<Rightarrow> \<not> accept f) then Inl UploadError
           else if size_f f > 10 * 1024 * 1024 then Inl LimitError
           else Inr (Some f)))"

text \<open>What the specification means by a JPEG or PNG extension and MIME type.\<close>

definition is_jpeg_png_ext :: "string \<Rightarrow> bool" where
  "is_jpeg_png_ext name = (toLowerCase (extname name) \<in> {''.jpeg'', ''.jpg'', ''.png''})"

definition is_jpeg_png_mime :: "string \<Rightarrow> bool" where
  "is_jpeg_png_mime m = (m \<in> {''image/jpeg'', ''image/png''})"

subsection \<open>The bordered target image\<close>

datatype colour = Black | White

definition colour_byte :: "colour \<Rightarrow> byte" where
  "colour_byte c = (case c of Black \<Rightarrow> 0 | White \<Rightarrow> 255)"

record rect =
  rect_x :: nat
  rect_y :: nat
  rect_width :: nat
  rect_height :: nat
  rect_fill :: colour

record svg =
  svg_width :: nat
  svg_height :: nat
  rects :: "rect list"

definition covers :: "rect \<Rightarrow> nat \<Rightarrow> nat \<Rightarrow> bool" where
  "covers r x y =
     (rect_x r \<le> x \<and> x < rect_x r + rect_width r \<and> rect_y r \<le> y \<and> y < rect_y r + rect_height r)"

text \<open>
  An SVG of filled rectangles, rendered: a later rectangle paints over an earlier one,
  and a pixel no rectangle covers stays transparent.
\<close>

definition render_svg :: "svg \<Rightarrow> image" where
  "render_svg s =
     \<lparr>width = svg_width s, height = svg_height s, bands = 4,
      px = \<lambda>x y c. (case filter (\<lambda>r. covers r x y) (rev (rects s)) of
                       [] \<Rightarrow> 0
                     | r # _ \<Rightarrow> if c = 3 then 255 else colour_byte (rect_fill r))\<rparr>"

text \<open>The SVG text of \<open>createTargetImage\<close>.\<close>

definition svgBorder :: svg where
  "svgBorder =
     \<lparr>svg_width = 512, svg_height = 512,
      rects = [\<lparr>rect_x = 0, rect_y = 0, rect_width = 512, rect_height = 512, rect_fill = Black\<rparr>,
               \<lparr>rect_x = 40, rect_y = 40, rect_width = 432, rect_height = 432, rect_fill = White\<rparr>]\<rparr>"

text \<open>
  \<open>sharp({ create: { width: 512, height: 512, channels: 4,
  background: { r: 255, g: 255, b: 255, alpha: 1 } } })\<close>.
\<close>

definition white_canvas :: image where
  "white_canvas = \<lparr>width = 512, height = 512, bands = 4, px = \<lambda>x y c. 255\<rparr>"

text \<open>An image without an alpha band is opaque; one with 1 or 2 bands is grey.\<close>

definition alpha_at :: "image \<Rightarrow> nat \<Rightarrow> nat \<Rightarrow> byte" where
  "alpha_at im x y = (if bands im = 4 \<or> bands im = 2 then px im x y (bands im - 1) else 255)"

definition rgba_at :: "image \<Rightarrow> nat \<Rightarrow> nat \<Rightarrow> nat \<Rightarrow> byte" where
  "rgba_at im x y c =
     (if c = 3 then alpha_at im x y else if bands im < 3 then px im x y 0 else px im x y c)"

record overlay =
  ov_input :: image
  ov_top :: nat
  ov_left :: nat

text \<open>
  One entry of \<open>composite\<close>, blend mode \<open>over\<close>: inside the overlay's rectangle an
  opaque overlay pixel replaces the pixel below and a transparent one leaves it. sharp
  refuses an overlay larger than the image below.
\<close>

definition composite1 :: "sharp_lib \<Rightarrow> overlay \<Rightarrow> image \<Rightarrow> js_error + image" where
  "composite1 lib ov base =
     (if width (ov_input ov) > width base \<or> height (ov_input ov) > height base then Inl CompositeError
      else Inr (base\<lparr>px := \<lambda>x y c.
        if ov_left ov \<le> x \<and> x < ov_left ov + width (ov_input ov) \<and> ov_top ov \<le> y \<and> y < ov_top ov + height (ov_input ov)
        then (let a = alpha_at (ov_input ov) (x - ov_left ov) (y - ov_top ov)
              in if a = 255 then rgba_at (ov_input ov) (x - ov_left ov) (y - ov_top ov) c
                 else if a = 0 then px base x y c
                 else blend lib (rgba_at (ov_input ov) (x - ov_left ov) (y - ov_top ov)) (px base x y) c)
        else px base x y c\<rparr>))"

fun composite :: "sharp_lib \<Rightarrow> overlay list \<Rightarrow> image \<Rightarrow> js_error + image" where
  "composite lib [] base = Inr base"
| "composite lib (ov # ovs) base =
     (case composite1 lib ov base of Inl e \<Rightarrow> Inl e | Inr b \<Rightarrow> composite lib ovs b)"

text \<open>
  The image \<open>createTargetImage\<close> lays over the border: the input resized to
  \<open>imageSize\<close> with fit \<open>cover\<close>, as the buffer \<open>resizedImage\<close> decodes.
\<close>

definition borderSize :: nat where
  "borderSize = 50"

definition imageSize :: nat where
  "imageSize = 412"

definition resizedImage :: "sharp_lib \<Rightarrow> format \<Rightarrow> image \<Rightarrow> image" where
  "resizedImage lib fmt img =
     reencode lib fmt
       (sharp_resize lib cover_options imageSize imageSize img)"

text \<open>The canvas \<open>createTargetImage\<close> composes, before it is written as PNG.\<close>

definition target_canvas :: "sharp_lib \<Rightarrow> format \<Rightarrow> image \<Rightarrow> js_error + image" where
  "target_canvas lib fmt img =
     composite lib
       [\<lparr>ov_input = render_svg svgBorder, ov_top = 0, ov_left = 0\<rparr>,
        \<lparr>ov_input = resizedImage lib fmt img, ov_top = borderSize, ov_left = borderSize\<rparr>]
       white_canvas"

text \<open>\<open>createTargetImage\<close> (part 001; the disk-storage server has the same body).\<close>

definition createTargetImage :: "sharp_lib \<Rightarrow> buffer \<Rightarrow> string \<Rightarrow> world \<Rightarrow> js_error + world" where
  "createTargetImage lib imageBuffer outputPath w =
     (case sharp imageBuffer of
        Inl e \<Rightarrow> Inl e
      | Inr (fmt, img) \<Rightarrow>
          (case target_canvas lib fmt img of
             Inl e \<Rightarrow> Inl e
           | Inr canvas \<Rightarrow> writeFile outputPath (Encoded PNG canvas) w))"

subsection \<open>The request handlers\<close>

datatype message = NoImageUploaded | MarkerGenerationFailed | ServerError

text \<open>
  The JSON bodies: \<open>SuccessBody\<close> carries the two URLs of \<open>{ success: true, ... }\<close>,
  \<open>ErrorBody\<close> the \<open>error\<close> text and the \<open>details\<close>; \<open>DefaultErrorPage\<close> is
  what Express answers when no error middleware is installed.
\<close>

datatype body = SuccessBody string string | ErrorBody message "js_error option" | DefaultErrorPage

record response =
  status :: nat
  body :: body

text \<open>
  What a request reads from outside the program: the clock; the double
  \<open>Math.random() * 1E9\<close>, given as the number the floating-point product comes to,
  so that nothing is rounded in the model; the environment variables; and the MindAR
  compiler, whose loading
  (\<open>require\<close>, \<open>loadImage\<close>, the canvas) and compiling (\<open>compileImageTargets\<close>,
  \<open>exportData\<close>) either give a value or throw.
\<close>

record env =
  now :: nat
  random_times_1E9 :: rat
  railway_domain :: "string option"
  port :: string
  mindar_load :: "buffer \<Rightarrow> js_error + image"
  mindar_compile :: "image \<Rightarrow> js_error + string"

definition baseUrl :: "env \<Rightarrow> string" where
  "baseUrl e =
     (case railway_domain e of
        None \<Rightarrow> ''http://localhost:'' @ port e
      | Some d \<Rightarrow> if d = [] then ''http://localhost:'' @ port e else ''https://'' @ d)"

definition failed :: "js_error \<Rightarrow> world \<Rightarrow> response \<times> world" where
  "failed e w =
     (\<lparr>status = 500, body = ErrorBody MarkerGenerationFailed (Some e)\<rparr>,
      console_error ''marker generation error'' e w)"

text \<open>The handler of \<open>POST /api/generate-marker\<close> in part 001.\<close>

definition generate_marker_bordered ::
  "sharp_lib \<Rightarrow> env \<Rightarrow> upload option \<Rightarrow> world \<Rightarrow> response \<times> world" where
  "generate_marker_bordered lib e file w =
     (case file of
        None \<Rightarrow> (\<lparr>status = 400, body = ErrorBody NoImageUploaded None\<rparr>, w)
      | Some f \<Rightarrow>
          (let filename = toString (now e) @ ''-'' @ toString (nat \<lfloor>random_times_1E9 e + 1 / 2\<rfloor>);
               w0 = console_log (''image processing started: '' @ filename) w
           in case resize_to_jpeg lib inside_options 512 512 90 (buffer f) of
                Inl err \<Rightarrow> failed err w0
              | Inr optimizedBuffer \<Rightarrow>
                  (let w1 = console_log ''image optimised'' w0;
                       targetPath = ''./public/targets/'' @ filename @ ''.png''
                   in case createTargetImage lib optimizedBuffer targetPath w1 of
                        Inl err \<Rightarrow> failed err w1
                      | Inr w2 \<Rightarrow>
                          (let w3 = console_log ''target image created'' w2;
                               markerPath = ''./public/markers/'' @ filename @ ''.patt''
                           in case generatePattFile lib optimizedBuffer markerPath w3 of
                                Inl err \<Rightarrow> failed err w3
                              | Inr w4 \<Rightarrow>
                                  (\<lparr>status = 200,
                                    body = SuccessBody (baseUrl e @ ''/markers/'' @ filename @ ''.patt'')
                                             (baseUrl e @ ''/targets/'' @ filename @ ''.png'')\<rparr>,
                                   console_log ''marker file created'' w4)))))"

text \<open>The route of part 001: multer, then the handler, or the error middleware.\<close>

definition post_bordered ::
  "sharp_lib \<Rightarrow> env \<Rightarrow> upload option \<Rightarrow> world \<Rightarrow> response \<times> world" where
  "post_bordered lib e part w =
     (case multer_single (upload_filter MemoryBordered) part of
        Inl err \<Rightarrow> (\<lparr>status = 500, body = ErrorBody ServerError (Some err)\<rparr>,
                    console_error ''server error'' err w)
      | Inr file \<Rightarrow> generate_marker_bordered lib e file w)"

text \<open>
  \<open>compileMindARTarget\<close>: whatever the \<open>try\<close> block throws is logged, and the
  placeholder is written in its place; only that last write can still throw. The
  progress lines the compiler logs are left out.
\<close>

definition fallback :: "js_error \<Rightarrow> string \<Rightarrow> world \<Rightarrow> (js_error + unit) \<times> world" where
  "fallback err outputPath w =
     (let w1 = console_error ''MindAR compile error'' err w;
          w2 = console_log ''fallback mode: simple target'' w1
      in case writeFile outputPath (Raw ''MINDAR_COMPILED'') w2 of
           Inl err' \<Rightarrow> (Inl err', w2)
         | Inr w3 \<Rightarrow> (Inr (), w3))"

definition compileMindARTarget :: "env \<Rightarrow> buffer \<Rightarrow> string \<Rightarrow> world \<Rightarrow> (js_error + unit) \<times> world" where
  "compileMindARTarget e imageBuffer outputPath w =
     (case mindar_load e imageBuffer of
        Inl err \<Rightarrow> fallback err outputPath w
      | Inr imageData \<Rightarrow>
          (let w1 = console_log ''MindAR compile start'' w
           in case mindar_compile e imageData of
                Inl err \<Rightarrow> fallback err outputPath w1
              | Inr exportedBuffer \<Rightarrow>
                  (case writeFile outputPath (Raw exportedBuffer) w1 of
                     Inl err \<Rightarrow> fallback err outputPath w1
                   | Inr w2 \<Rightarrow> (Inr (), console_log ''compiled, file saved'' w2))))"

text \<open>The handler of \<open>POST /api/generate-marker\<close> in the MindAR server.\<close>

definition generate_marker_mind ::
  "sharp_lib \<Rightarrow> env \<Rightarrow> upload option \<Rightarrow> world \<Rightarrow> response \<times> world" where
  "generate_marker_mind lib e file w =
     (case file of
        None \<Rightarrow> (\<lparr>status = 400, body = ErrorBody NoImageUploaded None\<rparr>, w)
      | Some f \<Rightarrow>
          (let filename = toString (now e);
               w0 = console_log (''image processing started: '' @ filename) w
           in case resize_to_jpeg lib mind_options 480 480 90 (buffer f) of
                Inl err \<Rightarrow> failed err w0
              | Inr optimizedBuffer \<Rightarrow>
                  (let w1 = console_log ''image optimised'' w0;
                       targetPath = ''./public/targets/'' @ filename @ ''.jpg''
                   in case writeFile targetPath optimizedBuffer w1 of
                        Inl err \<Rightarrow> failed err w1
                      | Inr w2 \<Rightarrow>
                          (let compiledPath = ''./public/targets/'' @ filename @ ''.mind''
                           in case compileMindARTarget e optimizedBuffer compiledPath w2 of
                                (Inl err, w3) \<Rightarrow> failed err w3
                              | (Inr u, w3) \<Rightarrow>
                                  (\<lparr>status = 200,
                                    body = SuccessBody (baseUrl e @ ''/targets/'' @ filename @ ''.mind'')
                                             (baseUrl e @ ''/targets/'' @ filename @ ''.jpg'')\<rparr>,
                                   console_log ''MindAR compile done'' w3)))))"

text \<open>The route of the MindAR server: no filter and no error middleware.\<close>

definition post_mind ::
  "sharp_lib \<Rightarrow> env \<Rightarrow> upload option \<Rightarrow> world \<Rightarrow> response \<times> world" where
  "post_mind lib e part w =
     (case multer_single (upload_filter MindAR) part of
        Inl err \<Rightarrow> (\<lparr>status = 500, body = DefaultErrorPage\<rparr>, w)
      | Inr file \<Rightarrow> generate_marker_mind lib e file w)"

subsection \<open>The browser client\<close>

datatype client_error =
    ImageLoadFailed
  | ImageTooSmall
  | AssignmentToConstant
  | MindARNotLoaded
  | CompileThrew
  | CompileTimedOut
  | CompiledDataTooSmall
  | SceneSetupThrew
  | SceneLoadTimedOut
  | MindARSystemMissing
  | MindARStartThrew

record picture =
  pic_width :: nat
  pic_height :: nat

text \<open>
  How the compiler run ends: the library is not there, the compiler throws, the 30
  seconds pass first, or it hands back the compiled bytes.
\<close>

datatype compile_outcome = LibraryMissing | CompilerThrows | CompileTimeout | Compiled string

text \<open>
  How the scene start ends: the set-up throws, the scene does not load in 20 seconds,
  the MindAR system is missing, its start throws, or it starts.
\<close>

datatype scene_outcome = SetupThrows | LoadTimeout | SystemMissing | StartThrows | Started

text \<open>
  What the click handler meets outside the program: \<open>loadImage\<close> resolving or
  rejecting, the compiler run with the percentages its progress callback logs (each
  the value \<open>Math.round(25 + progress * 50)\<close> comes to), and the scene start. The
  texts the handler writes into the page are not modelled.
\<close>

record client_env =
  loadImage :: "string \<Rightarrow> client_error + picture"
  compiler_run :: "picture \<Rightarrow> nat list \<times> compile_outcome"
  scene_start :: "string \<Rightarrow> scene_outcome"

datatype screen = UploadScreen | LoadingScreen | ARView

datatype notice = SelectImageFirst | StartFailed client_error

record client =
  selectedFile :: "string option"
  compiledData :: "string option"
  screen :: screen
  alerts :: "notice list"
  client_log :: "string list"

definition log_line :: "string \<Rightarrow> client \<Rightarrow> client" where
  "log_line msg st = st\<lparr>client_log := client_log st @ [msg]\<rparr>"

definition log_lines :: "string list \<Rightarrow> client \<Rightarrow> client" where
  "log_lines msgs st = st\<lparr>client_log := client_log st @ msgs\<rparr>"

text \<open>The \<open>catch\<close> block of the click handler.\<close>

definition start_failed :: "client_error \<Rightarrow> client \<Rightarrow> client" where
  "start_failed err st =
     (log_line ''AR start failed'' st)\<lparr>alerts := alerts st @ [StartFailed err], screen := UploadScreen\<rparr>"

text \<open>
  \<open>compileImageTarget\<close>: the inner \<open>catch\<close> logs what the \<open>try\<close> block throws,
  also the error for compiled data under 100 bytes; the timeout rejects without a log.
\<close>

definition compileImageTarget :: "client_env \<Rightarrow> picture \<Rightarrow> client \<Rightarrow> (client_error + string) \<times> client" where
  "compileImageTarget ce img st =
     (let st0 = log_line ''compile start'' st;
          progress = map (\<lambda>percent. ''compile progress: '' @ toString percent @ ''%'')
                       (fst (compiler_run ce img))
      in case snd (compiler_run ce img) of
           LibraryMissing \<Rightarrow> (Inl MindARNotLoaded, log_line ''compile failed'' st0)
         | CompilerThrows \<Rightarrow> (Inl CompileThrew, log_line ''compile failed'' (log_lines progress st0))
         | CompileTimeout \<Rightarrow> (Inl CompileTimedOut, log_lines progress st0)
         | Compiled bytes \<Rightarrow>
             (let st1 = log_line ''compile done'' (log_lines progress st0)
              in if length bytes < 100 then (Inl CompiledDataTooSmall, log_line ''compile failed'' st1)
                 else (Inr bytes, st1)))"

text \<open>\<open>initializeARScene\<close> with \<open>setupEventListeners\<close>.\<close>

definition initializeARScene :: "client_env \<Rightarrow> string \<Rightarrow> client \<Rightarrow> (client_error + unit) \<times> client" where
  "initializeARScene ce compiled st =
     (let st0 = log_line ''AR scene init'' st;
          st1 = log_lines [''target URL created'', ''MindAR configured''] st0;
          st2 = log_line ''scene loaded'' st1
      in case scene_start ce compiled of
           SetupThrows \<Rightarrow> (Inl SceneSetupThrew, log_line ''scene init failed'' st0)
         | LoadTimeout \<Rightarrow> (Inl SceneLoadTimedOut, st1)
         | SystemMissing \<Rightarrow> (Inl MindARSystemMissing, log_line ''MindAR start failed'' st2)
         | StartThrows \<Rightarrow>
             (Inl MindARStartThrew, log_line ''MindAR start failed'' (log_line ''MindAR starting'' st2))
         | Started \<Rightarrow>
             (Inr (), log_lines [''MindAR starting'', ''MindAR started'', ''event listeners set''] st2))"

text \<open>
  The click handler of \<open>startBtn\<close>. \<open>img\<close> is declared \<open>const\<close>, so the assignment
  \<open>img = await resizeImage(img, 1024)\<close> throws a TypeError once the resize resolves.
\<close>

definition start_click :: "client_env \<Rightarrow> client \<Rightarrow> client" where
  "start_click ce st =
     (case selectedFile st of
        None \<Rightarrow> st\<lparr>alerts := alerts st @ [SelectImageFirst]\<rparr>
      | Some file \<Rightarrow>
          (let st1 = (log_line ''AR start'' st)\<lparr>screen := LoadingScreen\<rparr>
           in case loadImage ce file of
                Inl err \<Rightarrow> start_failed err st1
              | Inr img \<Rightarrow>
                  (let st2 = log_line ''image size'' st1
                   in if pic_width img < 300 \<or> pic_height img < 300 then start_failed ImageTooSmall st2
                      else if pic_width img > 2000 \<or> pic_height img > 2000
                        then start_failed AssignmentToConstant (log_line ''image is large, resizing'' st2)
                      else (case compileImageTarget ce img st2 of
                              (Inl err, st3) \<Rightarrow> start_failed err st3
                            | (Inr compiled, st3) \<Rightarrow>
                                (let st4 = st3\<lparr>compiledData := Some compiled\<rparr>
                                 in case initializeARScene ce compiled st4 of
                                      (Inl err, st5) \<Rightarrow> start_failed err st5
                                    | (Inr u, st5) \<Rightarrow> (log_line ''AR started'' st5)\<lparr>screen := ARView\<rparr>)))))"

subsection \<open>The random pattern in closed form\<close>

text \<open>The text of the \<open>k\<close>-th draw, and the rows and blocks made of them.\<close>

definition random_cell :: "rng \<Rightarrow> nat \<Rightarrow> string" where
  "random_cell g k = padStart 3 SP (toString (nat \<lfloor>g k * 256\<rfloor>))"

definition random_row_text :: "rng \<Rightarrow> string" where
  "random_row_text g = join [SP] (map (random_cell g) [0..<16])"

definition random_block :: "rng \<Rightarrow> string" where
  "random_block g = concat (map (\<lambda>j. random_row_text (\<lambda>n. g (n + 16 * j)) @ [NL]) [0..<16])"

subsection \<open>The two layers of the target canvas\<close>

text \<open>
  The canvas after the first entry of \<open>composite\<close>, the border, and after the second,
  the image.
\<close>

definition border_layer :: "sharp_lib \<Rightarrow> image" where
  "border_layer lib =
     white_canvas\<lparr>px := \<lambda>x y c.
        if x < 512 \<and> y < 512
        then (let a = alpha_at (render_svg svgBorder) x y
              in if a = 255 then rgba_at (render_svg svgBorder) x y c
                 else if a = 0 then px white_canvas x y c
                 else blend lib (rgba_at (render_svg svgBorder) x y) (px white_canvas x y) c)
        else px white_canvas x y c\<rparr>"

definition image_layer :: "sharp_lib \<Rightarrow> format \<Rightarrow> image \<Rightarrow> image" where
  "image_layer lib fmt img =
     (border_layer lib)\<lparr>px := \<lambda>x y c.
        if borderSize \<le> x \<and> x < borderSize + imageSize \<and> borderSize \<le> y \<and> y < borderSize + imageSize
        then (let a = alpha_at (resizedImage lib fmt img) (x - borderSize) (y - borderSize)
              in if a = 255 then rgba_at (resizedImage lib fmt img) (x - borderSize) (y - borderSize) c
                 else if a = 0 then px (border_layer lib) x y c
                 else blend lib (rgba_at (resizedImage lib fmt img) (x - borderSize) (y - borderSize))
                        (px (border_layer lib) x y) c)
        else px (border_layer lib) x y c\<rparr>"

subsection \<open>Concrete inputs\<close>

text \<open>
  A one-colour image, a stand-in for the pixel arithmetic of sharp (first source pixel
  for every kernel, a lossless codec, the upper pixel when blending) and a world with
  no files, in which every write succeeds.
\<close>

definition flat_image :: "nat \<Rightarrow> nat \<Rightarrow> nat \<Rightarrow> byte \<Rightarrow> image" where
  "flat_image w h b v = \<lparr>width = w, height = h, bands = b, px = \<lambda>x y c. v\<rparr>"

definition plain_lib :: sharp_lib where
  "plain_lib =
     \<lparr>resample = \<lambda>f k w h img x y c. px img 0 0 c,
      jpeg_codec = \<lambda>q img. px img,
      blend = \<lambda>upper lower. upper\<rparr>"

definition empty_world :: world where
  "empty_world = \<lparr>files = \<lambda>p. None, write_fails = \<lambda>p. False, console = []\<rparr>"

text \<open>
  A stand-in whose \<open>lanczos3\<close> kernel takes the mean of two neighbouring source
  pixels where its \<open>nearest\<close> kernel takes the first, and an image of black and
  white columns.
\<close>

definition averaging_lib :: sharp_lib where
  "averaging_lib =
     plain_lib\<lparr>resample := \<lambda>f k w h img x y c.
        (case k of
           Nearest \<Rightarrow> px img 0 0 c
         | Lanczos3 \<Rightarrow> word_of_nat ((unat (px img 0 0 c) + unat (px img 1 0 c)) div 2))\<rparr>"

definition striped_image :: image where
  "striped_image = \<lparr>width = 512, height = 512, bands = 3, px = \<lambda>x y c. if even x then 0 else 255\<rparr>"

definition notes_txt :: upload where
  "notes_txt =
     \<lparr>originalname = ''notes.txt'', mimetype = ''text/plain'', buffer = Raw ''hello'', size_f = 5\<rparr>"

definition archive_pngz :: upload where
  "archive_pngz =
     \<lparr>originalname = ''archive.pngz'', mimetype = ''application/x-png-archive'',
      buffer = Raw ''PK'', size_f = 2\<rparr>"

text \<open>An environment whose MindAR compiler cannot be loaded, and two uploads.\<close>

definition test_env :: env where
  "test_env =
     \<lparr>now = 1700000000000, random_times_1E9 = 250000000, railway_domain = None, port = ''3000'',
      mindar_load = \<lambda>b. Inl CompileError, mindar_compile = \<lambda>img. Inl CompileError\<rparr>"

definition photo_jpg :: upload where
  "photo_jpg =
     \<lparr>originalname = ''photo.jpg'', mimetype = ''image/jpeg'',
      buffer = Encoded JPEG (flat_image 1000 800 3 7), size_f = 200000\<rparr>"

definition tiny_png :: upload where
  "tiny_png =
     \<lparr>originalname = ''tiny.png'', mimetype = ''image/png'',
      buffer = Encoded PNG (flat_image 10 10 3 7), size_f = 100\<rparr>"

section \<open>Properties\<close>

subsection \<open>The pattern text in closed form, its lines and its fields\<close>

lemma push_value_eq:
  "push_value img c y x row =
     (if cell_ok img c y x then Inr (row @ [cell_text img c y x]) else Inl TypeError)"
  by (simp add: push_value_def buf_get_def cell_ok_def cell_text_def)

lemma for_each_append:
  assumes step: "\<And>i s. step i s = (if ok i then Inr (s @ f i) else Inl e)"
  shows "for_each xs step s =
     (if \<forall>i\<in>set xs. ok i then Inr (s @ concat (map f xs)) else Inl e)"
proof (induction xs arbitrary: s)
  case Nil
  show ?case by simp
next
  case (Cons x xs)
  show ?case
  proof (cases "ok x")
    case True
    then have "step x s = Inr (s @ f x)"
      by (simp add: step)
    then show ?thesis
      using True by (simp add: Cons.IH)
  next
    case False
    then have "step x s = Inl e"
      by (simp add: step)
    then show ?thesis
      using False by simp
  qed
qed

lemma for_each_push_value:
  "for_each xs (push_value img c y) row =
     (if \<forall>x\<in>set xs. cell_ok img c y x then Inr (row @ map (cell_text img c y) xs) else Inl TypeError)"
proof -
  have "concat (map (\<lambda>x. [cell_text img c y x]) xs) = map (cell_text img c y) xs"
    by (induction xs) simp_all
  then show ?thesis
    using for_each_append [of "push_value img c y" "cell_ok img c y" "\<lambda>x. [cell_text img c y x]" TypeError xs row]
    by (simp add: push_value_eq)
qed

lemma push_row_eq:
  "push_row img c y p =
     (if \<forall>x<16. cell_ok img c y x then Inr (p @ row_text img c y @ [NL]) else Inl TypeError)"
  by (simp add: push_row_def for_each_push_value row_text_def)

lemma for_each_push_row:
  "for_each ys (push_row img c) p =
     (if \<forall>y\<in>set ys. \<forall>x<16. cell_ok img c y x
      then Inr (p @ concat (map (\<lambda>y. row_text img c y @ [NL]) ys)) else Inl TypeError)"
  using for_each_append [of "push_row img c" "\<lambda>y. \<forall>x<16. cell_ok img c y x" "\<lambda>y. row_text img c y @ [NL]" TypeError ys p]
  by (simp add: push_row_eq)

lemma push_channel_eq:
  "push_channel img c p =
     (if \<forall>y<16. \<forall>x<16. cell_ok img c y x
      then Inr (p @ block_text img c @ (if c < 2 then [NL] else [])) else Inl TypeError)"
  by (simp add: push_channel_def for_each_push_row block_text_def)

lemma all_less_3: "(\<forall>c<3. P (c::nat)) = (P 0 \<and> P 1 \<and> P 2)"
proof
  assume "\<forall>c<3. P c"
  then show "P 0 \<and> P 1 \<and> P 2" by simp
next
  assume h: "P 0 \<and> P 1 \<and> P 2"
  show "\<forall>c<3. P c"
  proof (intro allI impI)
    fix c :: nat
    assume "c < 3"
    then have "c = 0 \<or> c = 1 \<or> c = 2" by arith
    then show "P c" using h by auto
  qed
qed

lemma upt3: "[0..<3] = [0, 1, 2]"
  by (simp add: upt_rec)

lemma pattern_of_eq:
  "pattern_of img =
     (if all_cells_ok img
      then Inr (block_text img 0 @ [NL] @ block_text img 1 @ [NL] @ block_text img 2)
      else Inl TypeError)"
proof -
  have "all_cells_ok img = ((\<forall>y<16. \<forall>x<16. cell_ok img 0 y x) \<and> (\<forall>y<16. \<forall>x<16. cell_ok img 1 y x)
        \<and> (\<forall>y<16. \<forall>x<16. cell_ok img 2 y x))"
    unfolding all_cells_ok_def by (rule all_less_3)
  then show ?thesis
    by (simp add: pattern_of_def upt3 push_channel_eq)
qed

lemma split_on_nonempty: "split_on c s \<noteq> []"
  by (induction s) (auto split: list.splits)

lemma split_on_no_sep: "c \<notin> set w \<Longrightarrow> split_on c w = [w]"
  by (induction w) auto

lemma split_on_sep: "c \<notin> set a \<Longrightarrow> split_on c (a @ c # b) = a # split_on c b"
  by (induction a) (auto split: list.splits)

lemma split_on_lines:
  "\<forall>r\<in>set rows. c \<notin> set r \<Longrightarrow>
     split_on c (concat (map (\<lambda>r. r @ [c]) rows) @ rest) = rows @ split_on c rest"
  by (induction rows) (simp_all add: split_on_sep)

lemma toString_nonempty: "toString n \<noteq> []"
  by (subst toString.simps) simp

lemma digit_char_is_digit: "d < 10 \<Longrightarrow> is_digit (digit_char d)"
  by (simp add: is_digit_def digit_char_def)

lemma digit_val_digit_char: "d < 10 \<Longrightarrow> digit_val (digit_char d) = d"
  by (simp add: digit_val_def digit_char_def)

lemma toString_digits: "list_all is_digit (toString n)"
proof (induction n rule: toString.induct)
  case (1 n)
  show ?case
  proof (cases "n < 10")
    case True
    then show ?thesis
      by (subst toString.simps) (simp add: digit_char_is_digit)
  next
    case False
    then have "list_all is_digit (toString (n div 10))"
      using "1.IH" by simp
    then show ?thesis
      using False by (subst toString.simps) (simp add: digit_char_is_digit)
  qed
qed

lemma toString_value: "foldl (\<lambda>a c. 10 * a + digit_val c) 0 (toString n) = n"
proof (induction n rule: toString.induct)
  case (1 n)
  show ?case
  proof (cases "n < 10")
    case True
    then show ?thesis
      by (subst toString.simps) (simp add: digit_val_digit_char)
  next
    case False
    then have "foldl (\<lambda>a c. 10 * a + digit_val c) 0 (toString (n div 10)) = n div 10"
      using "1.IH" by simp
    then show ?thesis
      using False by (subst toString.simps) (simp add: digit_val_digit_char)
  qed
qed

lemma parseInt_toString: "parseInt (toString n) = Some n"
  by (simp add: parseInt_def toString_nonempty toString_digits toString_value)

lemma toString_length: "n < 1000 \<Longrightarrow> length (toString n) \<le> 3"
proof -
  assume n: "n < 1000"
  have a: "\<And>m. m < 10 \<Longrightarrow> length (toString m) = 1"
    by (subst toString.simps) simp
  have b: "\<And>m. m < 100 \<Longrightarrow> length (toString m) \<le> 2"
  proof -
    fix m :: nat
    assume "m < 100"
    then have "m div 10 < 10" by simp
    then show "length (toString m) \<le> 2"
      by (subst toString.simps) (simp add: a)
  qed
  have "n div 10 < 100" using n by simp
  then have "length (toString (n div 10)) \<le> 2" by (rule b)
  then show ?thesis
    by (subst toString.simps) (simp add: a)
qed

lemma cell_value_le: "cell_value img c y x \<le> 255"
proof -
  have "unat (data img ! (pixelIndex img y x + c)) < 2 ^ LENGTH(8)"
    by (rule unsigned_less)
  then show ?thesis by (simp add: cell_value_def)
qed

lemma is_digit_not_SP: "is_digit ch \<Longrightarrow> ch \<noteq> SP"
  by (auto simp: is_digit_def SP_def)

lemma is_digit_not_NL: "is_digit ch \<Longrightarrow> ch \<noteq> NL"
  by (auto simp: is_digit_def NL_def)

lemma toString_no_SP: "SP \<notin> set (toString n)"
  using toString_digits [of n] is_digit_not_SP by (auto simp: list_all_iff)

lemma toString_no_NL: "NL \<notin> set (toString n)"
  using toString_digits [of n] is_digit_not_NL by (auto simp: list_all_iff)

lemma cell_text_eq:
  "cell_text img c y x =
     replicate (3 - length (toString (cell_value img c y x))) SP @ toString (cell_value img c y x)"
  by (simp add: cell_text_def cell_value_def padStart_def)

lemma cell_text_length: "length (cell_text img c y x) = 3"
proof -
  have "length (toString (cell_value img c y x)) \<le> 3"
    using cell_value_le [of img c y x] by (intro toString_length) simp
  then show ?thesis by (simp add: cell_text_eq)
qed

lemma NL_neq_SP: "NL \<noteq> SP"
  by (simp add: NL_def SP_def)

lemma cell_text_no_NL: "NL \<notin> set (cell_text img c y x)"
  using NL_neq_SP by (auto simp: cell_text_eq toString_no_NL)

lemma join_no_NL: "\<forall>f\<in>set fs. NL \<notin> set f \<Longrightarrow> NL \<notin> set (join [SP] fs)"
  using NL_neq_SP by (induction fs rule: induct_list012) auto

lemma join_length:
  "\<forall>f\<in>set fs. length f = 3 \<Longrightarrow> fs \<noteq> [] \<Longrightarrow> length (join [SP] fs) + 1 = 4 * length fs"
  by (induction fs rule: induct_list012) auto

lemma fields_of_join:
  "\<forall>f\<in>set fs. length f = 3 \<Longrightarrow>
     map (\<lambda>k. take 3 (drop (4 * k) (join [SP] fs))) [0..<length fs] = fs"
proof (induction fs rule: induct_list012)
  case 1
  show ?case by simp
next
  case (2 s)
  then show ?case by simp
next
  case (3 s t ts)
  have hd: "take 3 (join [SP] (s # t # ts)) = s"
    using "3.prems" by simp
  have tl: "drop (4 * Suc k) (join [SP] (s # t # ts)) = drop (4 * k) (join [SP] (t # ts))" for k
    using "3.prems" by simp
  have "map (\<lambda>k. take 3 (drop (4 * k) (join [SP] (s # t # ts)))) [0..<length (s # t # ts)]
        = take 3 (join [SP] (s # t # ts))
          # map (\<lambda>k. take 3 (drop (4 * Suc k) (join [SP] (s # t # ts)))) [0..<length (t # ts)]"
    by (simp add: map_upt_Suc del: upt_Suc join.simps)
  also have "\<dots> = s # map (\<lambda>k. take 3 (drop (4 * k) (join [SP] (t # ts)))) [0..<length (t # ts)]"
    by (simp only: hd tl)
  also have "\<dots> = s # t # ts"
    using "3.IH"(2) "3.prems" by simp
  finally show ?case .
qed

lemma row_text_no_NL: "NL \<notin> set (row_text img c y)"
  unfolding row_text_def by (rule join_no_NL) (simp add: cell_text_no_NL)

lemma row_text_length: "length (row_text img c y) = 63"
proof -
  have "length (join [SP] (map (cell_text img c y) [0..<16])) + 1 = 4 * length (map (cell_text img c y) [0..<16])"
    by (rule join_length) (simp_all add: cell_text_length)
  then show ?thesis by (simp add: row_text_def)
qed

lemma row_text_fields: "fields_of (row_text img c y) = map (cell_text img c y) [0..<16]"
proof -
  have "map (\<lambda>k. take 3 (drop (4 * k) (join [SP] (map (cell_text img c y) [0..<16]))))
          [0..<length (map (cell_text img c y) [0..<16])] = map (cell_text img c y) [0..<16]"
    by (rule fields_of_join) (simp add: cell_text_length)
  then show ?thesis by (simp add: fields_of_def row_text_def)
qed

lemma row_text_nonempty: "row_text img c y \<noteq> []"
  using row_text_length [of img c y] by auto

lemma block_text_rows: "block_text img c = concat (map (\<lambda>r. r @ [NL]) (block_rows img c))"
  by (simp add: block_text_def block_rows_def comp_def)

lemma block_rows_length: "length (block_rows img c) = 16"
  by (simp add: block_rows_def)

lemma block_rows_no_NL: "\<forall>r\<in>set (block_rows img c). NL \<notin> set r"
  by (auto simp: block_rows_def row_text_no_NL)

lemma block_rows_nonempty: "\<forall>r\<in>set (block_rows img c). r \<noteq> []"
  by (auto simp: block_rows_def row_text_nonempty)

lemma split_on_block:
  "split_on NL (block_text img c @ rest) = block_rows img c @ split_on NL rest"
  using split_on_lines [of "block_rows img c" NL rest] block_rows_no_NL [of img c]
  by (simp add: block_text_rows)

lemma split_on_block_end:
  "split_on NL (block_text img c) = block_rows img c @ [[]]"
  using split_on_block [of img c "[]"] by simp

lemma pattern_lines:
  assumes "pattern_of img = Inr p"
  shows "split_on NL p =
     block_rows img 0 @ [] # block_rows img 1 @ [] # block_rows img 2 @ [[]]"
proof -
  have p: "p = block_text img 0 @ NL # block_text img 1 @ NL # block_text img 2"
    using assms by (simp add: pattern_of_eq split: if_splits)
  show ?thesis
    unfolding p by (simp add: split_on_block split_on_block_end)
qed

lemma split_on_append:
  "split_on c (a @ c # b) = split_on c a @ split_on c b"
proof (induction a)
  case Nil
  show ?case by simp
next
  case (Cons x a)
  obtain l ls where "split_on c a = l # ls"
    using split_on_nonempty [of c a] by (cases "split_on c a") auto
  then show ?case
    using Cons.IH by simp
qed

lemma words_of_append: "words_of (a @ SP # b) = words_of a @ words_of b"
  by (simp add: words_of_def split_on_append)

lemma words_of_word: "SP \<notin> set w \<Longrightarrow> w \<noteq> [] \<Longrightarrow> words_of w = [w]"
  by (simp add: words_of_def split_on_no_sep)

lemma words_of_padded:
  "SP \<notin> set w \<Longrightarrow> w \<noteq> [] \<Longrightarrow> words_of (replicate k SP @ w) = [w]"
proof (induction k)
  case 0
  then show ?case by (simp add: words_of_word)
next
  case (Suc k)
  have "words_of (replicate (Suc k) SP @ w) = words_of ([] @ SP # (replicate k SP @ w))"
    by simp
  also have "\<dots> = words_of [] @ words_of (replicate k SP @ w)"
    by (rule words_of_append)
  also have "\<dots> = [w]"
    using Suc by (simp add: words_of_def)
  finally show ?case .
qed

lemma words_of_join: "words_of (join [SP] fs) = concat (map words_of fs)"
proof (induction fs rule: induct_list012)
  case 1
  show ?case by (simp add: words_of_def)
next
  case (2 s)
  show ?case by simp
next
  case (3 s t ts)
  have "words_of (join [SP] (s # t # ts)) = words_of (s @ SP # join [SP] (t # ts))"
    by simp
  also have "\<dots> = words_of s @ words_of (join [SP] (t # ts))"
    by (rule words_of_append)
  finally show ?case
    using "3.IH"(2) by simp
qed

lemma words_of_cell: "words_of (cell_text img c y x) = [toString (cell_value img c y x)]"
  unfolding cell_text_eq
  by (rule words_of_padded) (simp_all add: toString_no_SP toString_nonempty)

lemma words_of_row:
  "words_of (row_text img c y) = map (\<lambda>x. toString (cell_value img c y x)) [0..<16]"
proof -
  have "concat (map (\<lambda>x. [f x]) xs) = map f xs" for f :: "nat \<Rightarrow> string" and xs
    by (induction xs) simp_all
  then show ?thesis
    by (simp add: row_text_def words_of_join comp_def words_of_cell del: upt_Suc)
 qed

lemma blank_split: "blank l \<Longrightarrow> \<forall>w\<in>set (split_on SP l). w = []"
  by (induction l) (simp_all add: blank_def)

lemma blank_words: "blank l \<Longrightarrow> words_of l = []"
  using blank_split [of l] by (simp add: words_of_def filter_empty_conv)

lemma row_text_not_blank: "\<not> blank (row_text img c y)"
proof
  assume "blank (row_text img c y)"
  then have "words_of (row_text img c y) = []"
    by (rule blank_words)
  then show False
    by (simp add: words_of_row upt_conv_Cons)
qed

lemma block_rows_not_blank: "\<forall>r\<in>set (block_rows img c). \<not> blank r"
  by (auto simp: block_rows_def row_text_not_blank)

lemma field_ok_cell: "field_ok (cell_text img c y x)"
proof -
  let ?v = "cell_value img c y x"
  obtain d ds where ds: "toString ?v = d # ds"
    using toString_nonempty [of ?v] by (cases "toString ?v") auto
  then have "d \<noteq> SP"
    using toString_no_SP [of ?v] by auto
  then have "dropWhile (\<lambda>ch. ch = SP) (toString ?v) = toString ?v"
    by (simp add: ds)
  moreover have "dropWhile (\<lambda>ch. ch = SP) (replicate k SP @ toString ?v)
      = dropWhile (\<lambda>ch. ch = SP) (toString ?v)" for k
    by (rule dropWhile_append2) simp
  ultimately have "dropWhile (\<lambda>ch. ch = SP) (cell_text img c y x) = toString ?v"
    by (simp add: cell_text_eq)
  moreover have "cell_text img c y x = padStart 3 SP (toString ?v)"
    by (simp add: cell_text_def cell_value_def)
  ultimately show ?thesis
    using cell_value_le [of img c y x] by (simp add: field_ok_def parseInt_toString)
qed

lemma row_text_data_row: "data_row (row_text img c y)"
proof -
  have "join [SP] (fields_of (row_text img c y)) = row_text img c y"
    by (simp add: row_text_fields) (simp add: row_text_def)
  moreover have "list_all (\<lambda>f. length f = 3 \<and> field_ok f) (fields_of (row_text img c y))"
    by (simp add: row_text_fields list_all_iff cell_text_length field_ok_cell)
  moreover have "length (words_of (row_text img c y)) = 16"
    by (simp add: words_of_row)
  ultimately show ?thesis
    by (simp add: data_row_def row_text_length)
qed

lemma block_rows_data: "list_all data_row (block_rows img c)"
  by (auto simp: block_rows_def list_all_iff row_text_data_row)

lemma sequence_map_Some: "sequence (map (\<lambda>x. Some (f x)) xs) = Some (map f xs)"
  by (induction xs) simp_all

lemma parse_row_row_text:
  "parse_row (row_text img c y) = Some (map (cell_value img c y) [0..<16])"
  by (simp add: parse_row_def words_of_row comp_def parseInt_toString sequence_map_Some del: upt_Suc)

lemma parse_block_rows:
  "map parse_row (block_rows img c) = map (\<lambda>y. Some (map (cell_value img c y) [0..<16])) [0..<16]"
  by (simp add: block_rows_def comp_def parse_row_row_text del: upt_Suc)

lemma sequence_append:
  "sequence xs = Some a \<Longrightarrow> sequence ys = Some b \<Longrightarrow> sequence (xs @ ys) = Some (a @ b)"
proof (induction xs arbitrary: a)
  case Nil
  then show ?case by simp
next
  case (Cons x xs)
  then show ?case
    by (cases x) (auto split: option.splits)
qed

lemma sequence_block:
  "sequence (map parse_row (block_rows img c)) = Some (map (\<lambda>y. map (cell_value img c y) [0..<16]) [0..<16])"
  unfolding parse_block_rows by (rule sequence_map_Some)

lemma nonblank_lines:
  assumes "pattern_of img = Inr p"
  shows "filter (\<lambda>l. \<not> blank l) (split_on NL p) = block_rows img 0 @ block_rows img 1 @ block_rows img 2"
proof -
  have ne: "filter (\<lambda>l. \<not> blank l) (block_rows img c) = block_rows img c" for c
    using block_rows_not_blank by (simp add: filter_id_conv)
  have bn: "blank []"
    by (simp add: blank_def)
  show ?thesis
    by (simp add: pattern_lines [OF assms] ne bn)
qed

lemma grid_of_blocks:
  "grid_of img = map (\<lambda>y. map (cell_value img 0 y) [0..<16]) [0..<16]
     @ map (\<lambda>y. map (cell_value img 1 y) [0..<16]) [0..<16]
     @ map (\<lambda>y. map (cell_value img 2 y) [0..<16]) [0..<16]"
  by (simp add: grid_of_def upt3 del: upt_Suc)

lemma grid_of_rows:
  "row \<in> set (grid_of img) \<Longrightarrow> length row = 16 \<and> (\<forall>v\<in>set row. v \<le> 255)"
  by (auto simp: grid_of_def cell_value_le simp del: upt_Suc)

lemma length_concat_uniform:
  "\<forall>r\<in>set xss. length r = n \<Longrightarrow> length (concat xss) = n * length xss"
  by (induction xss) simp_all

lemma grid_of_length: "length (grid_of img) = 48"
  by (simp add: grid_of_blocks del: upt_Suc)

lemma cell_ok_channels:
  assumes "3 \<le> channels img" and "length (data img) = 16 * 16 * channels img"
    and "c < 3" and "y < 16" and "x < 16"
  shows "cell_ok img c y x"
proof -
  have "y * 16 + x \<le> 255"
    using assms(4,5) by arith
  then have "(y * 16 + x) * channels img \<le> 255 * channels img"
    by (rule mult_le_mono1)
  then have "(y * 16 + x) * channels img + c < 16 * 16 * channels img"
    using assms(1,3) by linarith
  then show ?thesis
    unfolding cell_ok_def pixelIndex_def assms(2) .
qed

lemma pattern_of_succeeds:
  assumes "3 \<le> channels img" and "length (data img) = 16 * 16 * channels img"
  shows "pattern_of img = Inr (block_text img 0 @ [NL] @ block_text img 1 @ [NL] @ block_text img 2)"
  using cell_ok_channels [OF assms] by (simp add: pattern_of_eq all_cells_ok_def)

lemma pattern_of_layout:
  assumes "pattern_of img = Inr p"
  shows "patt_layout p"
proof -
  let ?R = "block_rows img 0" and ?G = "block_rows img 1" and ?B = "block_rows img 2"
  have ls: "split_on NL p = ?R @ [] # ?G @ [] # ?B @ [[]]"
    using assms by (rule pattern_lines)
  have ne: "filter (\<lambda>l. \<not> blank l) (block_rows img c) = block_rows img c" for c
    using block_rows_not_blank by (simp add: filter_id_conv)
  have em: "filter blank (block_rows img c) = []" for c
    using block_rows_not_blank by (simp add: filter_empty_conv)
  have bn: "blank []"
    by (simp add: blank_def)
  have c1: "length (split_on NL p) = 51"
    by (simp add: ls block_rows_length)
  have c2: "list_all data_row (take 16 (split_on NL p))"
    by (simp add: ls block_rows_length block_rows_data)
  have c3: "split_on NL p ! 16 = []"
    by (simp add: ls nth_append block_rows_length)
  have d17: "drop 17 (split_on NL p) = ?G @ [] # ?B @ [[]]"
    by (simp add: ls block_rows_length)
  have c4: "list_all data_row (take 16 (drop 17 (split_on NL p)))"
    by (simp add: d17 block_rows_length block_rows_data)
  have c5: "split_on NL p ! 33 = []"
    by (simp add: ls nth_append block_rows_length nth_Cons')
  have d34: "drop 34 (split_on NL p) = ?B @ [[]]"
    by (simp add: ls block_rows_length)
  have c6: "list_all data_row (take 16 (drop 34 (split_on NL p)))"
    by (simp add: d34 block_rows_length block_rows_data)
  have c7: "drop 50 (split_on NL p) = [[]]"
    by (simp add: ls block_rows_length)
  have c8: "length (filter (\<lambda>l. \<not> blank l) (split_on NL p)) = 48"
    by (simp add: ls ne bn block_rows_length)
  have bl: "butlast (split_on NL p) = ?R @ [] # ?G @ [] # ?B"
    by (simp add: ls butlast_append)
  have c9: "length (filter blank (butlast (split_on NL p))) = 2"
    by (simp add: bl em bn)
  from c1 c2 c3 c4 c5 c6 c7 c8 c9 show ?thesis
    unfolding patt_layout_def Let_def by blast
qed

subsection \<open>The raw buffer of a 16 by 16 image and the file written\<close>

lemma length_concat_map:
  "(\<And>x. length (f x) = n) \<Longrightarrow> length (concat (map f xs)) = n * length xs"
  by (induction xs) simp_all

lemma srgb_bands_ge: "0 < b \<Longrightarrow> 3 \<le> srgb_bands b"
  by (simp add: srgb_bands_def)

lemma to_raw_length:
  "length (data (to_raw img)) = height img * width img * srgb_bands (bands img)"
proof -
  let ?B = "srgb_bands (bands img)"
  have row: "length (concat (map (\<lambda>x. map (srgb_at img x y) [0..<?B]) [0..<width img]))
      = ?B * width img" for y
    by (simp add: length_concat_map [where n = ?B])
  have "length (concat (map (\<lambda>y. concat (map (\<lambda>x. map (srgb_at img x y) [0..<?B]) [0..<width img]))
          [0..<height img])) = (?B * width img) * length [0..<height img]"
    by (rule length_concat_map) (rule row)
  then show ?thesis
    by (simp add: to_raw_def mult.commute mult.left_commute)
qed

lemma to_raw_channels: "channels (to_raw img) = srgb_bands (bands img)"
  by (simp add: to_raw_def)

lemma resize_fill_16:
  "may_enlarge opts \<Longrightarrow> fit opts = Fill \<Longrightarrow>
   width (sharp_resize lib opts 16 16 img) = 16
   \<and> height (sharp_resize lib opts 16 16 img) = 16
   \<and> bands (sharp_resize lib opts 16 16 img) = bands img"
  by (simp add: sharp_resize_def resize_dims_def)

lemma raw16_pattern:
  assumes "may_enlarge opts" and "fit opts = Fill" and "0 < bands img"
  shows "\<exists>p. pattern_of (to_raw (sharp_resize lib opts 16 16 img)) = Inr p"
proof -
  let ?raw = "to_raw (sharp_resize lib opts 16 16 img)"
  have c: "3 \<le> channels ?raw"
    using assms(3) resize_fill_16 [OF assms(1,2), of lib img] by (simp add: to_raw_channels srgb_bands_ge)
  have l: "length (data ?raw) = 16 * 16 * channels ?raw"
    using resize_fill_16 [OF assms(1,2), of lib img] by (simp add: to_raw_length to_raw_channels)
  show ?thesis
    using pattern_of_succeeds [OF c l] by blast
qed


lemma generatePattFile_written:
  assumes "generatePattFile lib b path w = Inr w2"
  shows "\<exists>fmt img p. sharp b = Inr (fmt, img)
     \<and> pattern_of (to_raw (sharp_resize lib patt_options 16 16 img)) = Inr p
     \<and> files w2 path = Some (Raw p)"
  using assms
  by (auto simp: generatePattFile_def Let_def writeFile_def split: sum.splits prod.splits if_splits)

lemma generateRealPattFile_written:
  assumes "generateRealPattFile lib b path w = (Inr u, w1)"
  shows "\<exists>fmt img p. sharp b = Inr (fmt, img)
     \<and> pattern_of (to_raw (sharp_resize lib real_patt_options 16 16 img)) = Inr p
     \<and> files w1 path = Some (Raw p)"
  using assms
  by (auto simp: generateRealPattFile_def Let_def writeFile_def console_log_def console_error_def
      split: sum.splits prod.splits if_splits)

lemma generatePattFile_ok:
  assumes "0 < bands img" and "\<not> write_fails w path"
  shows "\<exists>p. pattern_of (to_raw (sharp_resize lib patt_options 16 16 img)) = Inr p
     \<and> generatePattFile lib (Encoded fmt img) path w = Inr (w\<lparr>files := (files w)(path \<mapsto> Raw p)\<rparr>)"
proof -
  obtain p where p: "pattern_of (to_raw (sharp_resize lib patt_options 16 16 img)) = Inr p"
    using raw16_pattern [of patt_options img lib] assms(1)
    by (auto simp: may_enlarge_def patt_options_def)
  then show ?thesis
    using assms(2) by (simp add: generatePattFile_def sharp_def writeFile_def)
qed

lemma generateRealPattFile_ok:
  assumes "0 < bands img" and "\<not> write_fails w path"
  shows "\<exists>p. pattern_of (to_raw (sharp_resize lib real_patt_options 16 16 img)) = Inr p
     \<and> generateRealPattFile lib (Encoded fmt img) path w
         = (Inr (), console_log ''.patt file created''
              ((console_log ''image data extracted'' w)\<lparr>files := (files w)(path \<mapsto> Raw p)\<rparr>))"
proof -
  obtain p where p: "pattern_of (to_raw (sharp_resize lib real_patt_options 16 16 img)) = Inr p"
    using raw16_pattern [of real_patt_options img lib] assms(1)
    by (auto simp: may_enlarge_def real_patt_options_def)
  then show ?thesis
    using assms(2) by (simp add: generateRealPattFile_def sharp_def writeFile_def console_log_def)
qed

lemma pattern_grid:
  assumes "pattern_of img = Inr p"
  shows "parse_pattern p = Some (grid_of img)
     \<and> length (grid_of img) = 48
     \<and> (\<forall>row\<in>set (grid_of img). length row = 16 \<and> (\<forall>v\<in>set row. v \<le> 255))
     \<and> length (concat (grid_of img)) = 768"
proof -
  have "sequence (map parse_row (block_rows img 0 @ block_rows img 1 @ block_rows img 2))
      = Some (grid_of img)"
    unfolding grid_of_blocks map_append
    by (intro sequence_append sequence_block)
  then have a: "parse_pattern p = Some (grid_of img)"
    by (simp add: parse_pattern_def nonblank_lines [OF assms])
  have b: "\<forall>row\<in>set (grid_of img). length row = 16 \<and> (\<forall>v\<in>set row. v \<le> 255)"
    using grid_of_rows by blast
  have "length (concat (grid_of img)) = 16 * length (grid_of img)"
    by (rule length_concat_uniform) (use b in blast)
  then have c: "length (concat (grid_of img)) = 768"
    by (simp add: grid_of_length)
  from a b c grid_of_length show ?thesis by blast
qed

lemma nth_concat_map:
  assumes len: "\<And>i. length (f i) = n" and "i < m" and "j < n"
  shows "concat (map f [0..<m]) ! (i * n + j) = f i ! j"
  using assms(2)
proof (induction m)
  case 0
  then show ?case by simp
next
  case (Suc m)
  have l: "length (concat (map f [0..<m])) = n * m"
    using length_concat_map [of f n "[0..<m]"] len by simp
  show ?case
  proof (cases "i < m")
    case True
    then have "i * n + j < n * m"
    proof -
      have "Suc i * n \<le> m * n"
        using True by (intro mult_le_mono1) simp
      then show ?thesis
        using assms(3) by (simp add: mult.commute)
    qed
    then show ?thesis
      using Suc.IH [OF True] by (simp add: nth_append l)
  next
    case False
    then have "i = m"
      using Suc.prems by simp
    then show ?thesis
      using assms(3) by (simp add: nth_append l mult.commute)
  qed
qed

lemma to_raw_nth:
  assumes "x < width img" and "y < height img" and "c < srgb_bands (bands img)"
  shows "data (to_raw img) ! ((y * width img + x) * srgb_bands (bands img) + c) = srgb_at img x y c"
proof -
  let ?B = "srgb_bands (bands img)"
  let ?row = "\<lambda>y. concat (map (\<lambda>x. map (srgb_at img x y) [0..<?B]) [0..<width img])"
  have rl: "length (?row y') = width img * ?B" for y'
    using length_concat_map [of "\<lambda>x. map (srgb_at img x y') [0..<?B]" ?B "[0..<width img]"]
    by (simp add: mult.commute)
  have in_row: "?row y ! (x * ?B + c) = srgb_at img x y c"
    using nth_concat_map [of "\<lambda>x. map (srgb_at img x y) [0..<?B]" ?B x "width img" c] assms(1,3)
    by simp
  have "x * ?B + c < width img * ?B"
  proof -
    have "Suc x * ?B \<le> width img * ?B"
      using assms(1) by (intro mult_le_mono1) simp
    then show ?thesis
      using assms(3) by simp
  qed
  then have "concat (map ?row [0..<height img]) ! (y * (width img * ?B) + (x * ?B + c))
      = ?row y ! (x * ?B + c)"
    using nth_concat_map [of ?row "width img * ?B" y "height img" "x * ?B + c"] rl assms(2)
    by blast
  moreover have "(y * width img + x) * ?B + c = y * (width img * ?B) + (x * ?B + c)"
    by (simp add: algebra_simps)
  ultimately show ?thesis
    using in_row by (simp add: to_raw_def add.assoc)
qed

lemma grid_of_nth:
  assumes "c < 3" and "y < 16" and "x < 16"
  shows "grid_of raw ! (c * 16 + y) ! x = cell_value raw c y x"
proof -
  have "grid_of raw ! (c * 16 + y)
      = map (\<lambda>y. map (cell_value raw c y) [0..<16]) [0..<16] ! y"
    unfolding grid_of_def
    using nth_concat_map [of "\<lambda>c. map (\<lambda>y. map (cell_value raw c y) [0..<16]) [0..<16]" 16 c 3 y]
      assms(1,2)
    by simp
  then show ?thesis
    using assms(2,3) by (simp del: upt_Suc)
qed

lemma pattern_reads_back:
  assumes p: "pattern_of (to_raw im) = Inr p"
    and w: "width im = 16" and h: "height im = 16"
  shows "reads_back p im"
proof -
  let ?raw = "to_raw im"
  have rt: "parse_pattern p = Some (grid_of ?raw)"
    "length (grid_of ?raw) = 48"
    "\<forall>row\<in>set (grid_of ?raw). length row = 16 \<and> (\<forall>v\<in>set row. v \<le> 255)"
    "length (concat (grid_of ?raw)) = 768"
    using pattern_grid [OF p] by blast+
  have ok: "all_cells_ok ?raw"
    using p by (simp add: pattern_of_eq split: if_splits)
  have B: "0 < srgb_bands (bands im)"
  proof (rule ccontr)
    assume "\<not> 0 < srgb_bands (bands im)"
    then have "length (data ?raw) = 0"
      by (simp add: to_raw_length)
    moreover have "cell_ok ?raw 0 0 0"
      using ok by (simp add: all_cells_ok_def)
    ultimately show False
      by (simp add: cell_ok_def)
  qed
  then have "0 < bands im"
    by (auto simp: srgb_bands_def split: if_splits)
  then have B3: "3 \<le> srgb_bands (bands im)"
    by (rule srgb_bands_ge)
  have px: "grid_of ?raw ! (c * 16 + y) ! x = unat (srgb_at im x y c)"
    if "c < 3" and "y < 16" and "x < 16" for c y x
  proof -
    have "data ?raw ! ((y * width im + x) * srgb_bands (bands im) + c) = srgb_at im x y c"
      using that B3 w h by (intro to_raw_nth) simp_all
    then have "cell_value ?raw c y x = unat (srgb_at im x y c)"
      by (simp add: cell_value_def pixelIndex_def to_raw_channels w)
    then show ?thesis
      using grid_of_nth [OF that] by simp
  qed
  show ?thesis
    unfolding reads_back_def using rt px by simp
qed

subsection \<open>Layout, round trip and bounds of the pattern file\<close>

text \<open>
  C1. Whenever \<open>generateRealPattFile\<close> or \<open>generatePattFile\<close> (part 001) returns
  normally, the file at the output path holds a text of 48 rows that are not blank, each
  of 16 fields of width 3, right-aligned decimal numbers, joined by single spaces and
  ended by a newline, with one blank line after the first and one after the second
  block of 16 rows and none after the third. Both functions do return normally for
  every image sharp decodes, of whatever size, once the path can be written.
\<close>

theorem patt_file_layout:
  "(generateRealPattFile lib b path w = (Inr u, w1) \<longrightarrow>
      (\<exists>p. files w1 path = Some (Raw p) \<and> patt_layout p))
   \<and> (generatePattFile lib b path w = Inr w2 \<longrightarrow>
      (\<exists>p. files w2 path = Some (Raw p) \<and> patt_layout p))
   \<and> (0 < bands img \<and> \<not> write_fails w path \<longrightarrow>
      (\<exists>w3. generateRealPattFile lib (Encoded fmt img) path w = (Inr (), w3))
      \<and> (\<exists>w4. generatePattFile lib (Encoded fmt img) path w = Inr w4))"
proof (intro conjI impI)
  assume "generateRealPattFile lib b path w = (Inr u, w1)"
  then obtain f' i' p where
    "pattern_of (to_raw (sharp_resize lib real_patt_options 16 16 i')) = Inr p"
    and "files w1 path = Some (Raw p)"
    using generateRealPattFile_written by blast
  then show "\<exists>p. files w1 path = Some (Raw p) \<and> patt_layout p"
    using pattern_of_layout by blast
next
  assume "generatePattFile lib b path w = Inr w2"
  then obtain f' i' p where
    "pattern_of (to_raw (sharp_resize lib patt_options 16 16 i')) = Inr p"
    and "files w2 path = Some (Raw p)"
    using generatePattFile_written by blast
  then show "\<exists>p. files w2 path = Some (Raw p) \<and> patt_layout p"
    using pattern_of_layout by blast
next
  assume "0 < bands img \<and> \<not> write_fails w path"
  then have a: "0 < bands img" "\<not> write_fails w path"
    by simp_all
  obtain p where "generateRealPattFile lib (Encoded fmt img) path w
      = (Inr (), console_log ''.patt file created''
           ((console_log ''image data extracted'' w)\<lparr>files := (files w)(path \<mapsto> Raw p)\<rparr>))"
    using generateRealPattFile_ok [OF a, of lib fmt] by blast
  then show "\<exists>w3. generateRealPattFile lib (Encoded fmt img) path w = (Inr (), w3)"
    by (rule exI)
next
  assume "0 < bands img \<and> \<not> write_fails w path"
  then have a: "0 < bands img" "\<not> write_fails w path"
    by simp_all
  obtain p where "generatePattFile lib (Encoded fmt img) path w
      = Inr (w\<lparr>files := (files w)(path \<mapsto> Raw p)\<rparr>)"
    using generatePattFile_ok [OF a, of lib fmt] by blast
  then show "\<exists>w4. generatePattFile lib (Encoded fmt img) path w = Inr w4"
    by (rule exI)
qed

theorem patt_file_layout_witness:
  "\<exists>w1 w2.
     generateRealPattFile plain_lib (Encoded PNG (flat_image 40 90 1 9)) ''a.patt'' empty_world
       = (Inr (), w1)
     \<and> generatePattFile plain_lib (Encoded PNG (flat_image 40 90 1 9)) ''a.patt'' empty_world
       = Inr w2
     \<and> (\<exists>p. files w1 ''a.patt'' = Some (Raw p) \<and> patt_layout p)
     \<and> (\<exists>p. files w2 ''a.patt'' = Some (Raw p) \<and> patt_layout p)"
proof -
  have h: "0 < bands (flat_image 40 90 1 9) \<and> \<not> write_fails empty_world ''a.patt''"
    by (simp add: flat_image_def empty_world_def)
  have "(\<exists>w3. generateRealPattFile plain_lib (Encoded PNG (flat_image 40 90 1 9)) ''a.patt'' empty_world
            = (Inr (), w3))
      \<and> (\<exists>w4. generatePattFile plain_lib (Encoded PNG (flat_image 40 90 1 9)) ''a.patt'' empty_world
            = Inr w4)"
    using patt_file_layout [of plain_lib "Encoded PNG (flat_image 40 90 1 9)" "''a.patt''" empty_world
        "()" empty_world empty_world "flat_image 40 90 1 9" PNG] h
    by blast
  then obtain w1 w2 where
    w1: "generateRealPattFile plain_lib (Encoded PNG (flat_image 40 90 1 9)) ''a.patt'' empty_world
           = (Inr (), w1)"
    and w2: "generatePattFile plain_lib (Encoded PNG (flat_image 40 90 1 9)) ''a.patt'' empty_world
           = Inr w2"
    by blast
  show ?thesis
    using patt_file_layout [of plain_lib "Encoded PNG (flat_image 40 90 1 9)" "''a.patt''" empty_world
        "()" w1 w2 "flat_image 40 90 1 9" PNG] w1 w2
    by blast
qed

text \<open>
  C5. Round trip: the file \<open>generatePattFile\<close> (part 001) or
  \<open>generateRealPattFile\<close> has written, read back by splitting at newlines, skipping
  the blank lines and reading every whitespace-separated field as a decimal integer,
  gives 768 values, each at most 255, in the shape of the pattern grid, 3 blocks of 16
  rows of 16 values, and they are the grid: the channel bytes of the 16 by 16 image the
  function sampled.
\<close>

theorem patt_file_roundtrip:
  "(generatePattFile lib b path w = Inr w2 \<longrightarrow>
      (\<exists>fmt img p. sharp b = Inr (fmt, img) \<and> files w2 path = Some (Raw p)
         \<and> reads_back p (sharp_resize lib patt_options 16 16 img)))
   \<and> (generateRealPattFile lib b path w = (Inr u, w1) \<longrightarrow>
      (\<exists>fmt img p. sharp b = Inr (fmt, img) \<and> files w1 path = Some (Raw p)
         \<and> reads_back p (sharp_resize lib real_patt_options 16 16 img)))"
proof (intro conjI impI)
  assume "generatePattFile lib b path w = Inr w2"
  then obtain fmt img p where s: "sharp b = Inr (fmt, img)"
    and p: "pattern_of (to_raw (sharp_resize lib patt_options 16 16 img)) = Inr p"
    and f: "files w2 path = Some (Raw p)"
    using generatePattFile_written by blast
  have d: "width (sharp_resize lib patt_options 16 16 img) = 16"
    "height (sharp_resize lib patt_options 16 16 img) = 16"
    using resize_fill_16 [of patt_options lib img] by (simp_all add: patt_options_def may_enlarge_def)
  show "\<exists>fmt img p. sharp b = Inr (fmt, img) \<and> files w2 path = Some (Raw p)
         \<and> reads_back p (sharp_resize lib patt_options 16 16 img)"
    using s f pattern_reads_back [OF p d] by blast
next
  assume "generateRealPattFile lib b path w = (Inr u, w1)"
  then obtain fmt img p where s: "sharp b = Inr (fmt, img)"
    and p: "pattern_of (to_raw (sharp_resize lib real_patt_options 16 16 img)) = Inr p"
    and f: "files w1 path = Some (Raw p)"
    using generateRealPattFile_written by blast
  have d: "width (sharp_resize lib real_patt_options 16 16 img) = 16"
    "height (sharp_resize lib real_patt_options 16 16 img) = 16"
    using resize_fill_16 [of real_patt_options lib img]
    by (simp_all add: real_patt_options_def may_enlarge_def)
  show "\<exists>fmt img p. sharp b = Inr (fmt, img) \<and> files w1 path = Some (Raw p)
         \<and> reads_back p (sharp_resize lib real_patt_options 16 16 img)"
    using s f pattern_reads_back [OF p d] by blast
qed

theorem patt_file_roundtrip_witness:
  "\<exists>w1 w2 p1 p2.
     generatePattFile plain_lib (Encoded JPEG (flat_image 300 200 3 200)) ''a.patt'' empty_world = Inr w2
     \<and> files w2 ''a.patt'' = Some (Raw p2)
     \<and> reads_back p2 (sharp_resize plain_lib patt_options 16 16 (flat_image 300 200 3 200))
     \<and> generateRealPattFile plain_lib (Encoded PNG (flat_image 40 90 1 9)) ''b.patt'' empty_world
         = (Inr (), w1)
     \<and> files w1 ''b.patt'' = Some (Raw p1)
     \<and> reads_back p1 (sharp_resize plain_lib real_patt_options 16 16 (flat_image 40 90 1 9))"
proof -
  have b: "0 < bands (flat_image 300 200 3 200)" "0 < bands (flat_image 40 90 1 9)"
    by (simp_all add: flat_image_def)
  have f: "\<not> write_fails empty_world path" for path
    by (simp add: empty_world_def)
  obtain w2 where w2: "generatePattFile plain_lib (Encoded JPEG (flat_image 300 200 3 200))
      ''a.patt'' empty_world = Inr w2"
    using generatePattFile_ok [OF b(1) f] by blast
  obtain w1 where w1: "generateRealPattFile plain_lib (Encoded PNG (flat_image 40 90 1 9))
      ''b.patt'' empty_world = (Inr (), w1)"
    using generateRealPattFile_ok [OF b(2) f] by blast
  have "\<exists>p. files w2 ''a.patt'' = Some (Raw p)
      \<and> reads_back p (sharp_resize plain_lib patt_options 16 16 (flat_image 300 200 3 200))"
    using patt_file_roundtrip [of plain_lib "Encoded JPEG (flat_image 300 200 3 200)" "''a.patt''"
        empty_world w2] w2
    by (auto simp: sharp_def)
  moreover have "\<exists>p. files w1 ''b.patt'' = Some (Raw p)
      \<and> reads_back p (sharp_resize plain_lib real_patt_options 16 16 (flat_image 40 90 1 9))"
    using patt_file_roundtrip [of plain_lib "Encoded PNG (flat_image 40 90 1 9)" "''b.patt''"
        empty_world _ "()" w1] w1
    by (auto simp: sharp_def)
  ultimately show ?thesis
    using w1 w2 by blast
qed

text \<open>
  C10. With at least 3 channels and a buffer of \<open>16 * 16 * info.channels\<close> bytes,
  every index \<open>(y * 16 + x) * info.channels + channel\<close> the loops read, for a channel
  below 3 and \<open>x\<close>, \<open>y\<close> below 16, lies inside the buffer, and the read gives a
  byte, a value of at most 255, never \<open>undefined\<close>.
\<close>

theorem pattern_index_in_bounds:
  assumes "3 \<le> channels img" and "length (data img) = 16 * 16 * channels img"
    and "channel < 3" and "y < 16" and "x < 16"
  shows "pixelIndex img y x + channel < length (data img)
     \<and> (\<exists>v. buf_get (data img) (pixelIndex img y x + channel) = Some v \<and> unat v \<le> 255)"
proof -
  have lt: "pixelIndex img y x + channel < length (data img)"
    using cell_ok_channels [OF assms] by (simp add: cell_ok_def)
  have "unat (data img ! (pixelIndex img y x + channel)) \<le> 255"
    using cell_value_le [of img channel y x] by (simp add: cell_value_def)
  then show ?thesis
    using lt by (simp add: buf_get_def)
qed

theorem pattern_index_in_bounds_witness:
  "(3::nat) \<le> channels \<lparr>data = replicate 1024 9, channels = 4\<rparr>
   \<and> length (data \<lparr>data = replicate 1024 9, channels = 4\<rparr>)
       = 16 * 16 * channels \<lparr>data = replicate 1024 9, channels = 4\<rparr>
   \<and> (2::nat) < 3 \<and> (15::nat) < 16
   \<and> pixelIndex \<lparr>data = replicate 1024 9, channels = 4\<rparr> 15 15 + 2 = 1022
   \<and> pixelIndex \<lparr>data = replicate 1024 9, channels = 4\<rparr> 15 15 + 2
       < length (data \<lparr>data = replicate 1024 9, channels = 4\<rparr>)
   \<and> (\<exists>v. buf_get (data \<lparr>data = replicate 1024 9, channels = 4\<rparr>)
             (pixelIndex \<lparr>data = replicate 1024 9, channels = 4\<rparr> 15 15 + 2) = Some v
          \<and> unat v \<le> 255)"
proof -
  have h: "(3::nat) \<le> channels \<lparr>data = replicate 1024 9, channels = 4\<rparr>"
    "length (data \<lparr>data = replicate 1024 9, channels = 4\<rparr>)
       = 16 * 16 * channels \<lparr>data = replicate 1024 9, channels = 4\<rparr>"
    "(2::nat) < 3" "(15::nat) < 16"
    by simp_all
  have i: "pixelIndex \<lparr>data = replicate 1024 9, channels = 4\<rparr> 15 15 + 2 = 1022"
    by (simp add: pixelIndex_def)
  show ?thesis
    using pattern_index_in_bounds [OF h(1) h(2) h(3) h(4) h(4)] h i by blast
qed

subsection \<open>The random pattern\<close>

lemma push_random_eq:
  "push_random x (row, g) = (row @ [random_cell g 0], \<lambda>n. g (Suc n))"
  by (simp add: push_random_def Math_random_def random_cell_def)

lemma fold_push_random:
  "fold push_random xs (row, g)
     = (row @ map (random_cell g) [0..<length xs], \<lambda>n. g (n + length xs))"
proof (induction xs arbitrary: row g)
  case Nil
  show ?case by simp
next
  case (Cons x xs)
  have shift: "random_cell (\<lambda>n. g (Suc n)) k = random_cell g (Suc k)" for k
    by (simp add: random_cell_def)
  have "fold push_random (x # xs) (row, g)
      = fold push_random xs (row @ [random_cell g 0], \<lambda>n. g (Suc n))"
    by (simp add: push_random_eq)
  also have "\<dots> = ((row @ [random_cell g 0]) @ map (random_cell (\<lambda>n. g (Suc n))) [0..<length xs],
      \<lambda>n. g (Suc (n + length xs)))"
    by (rule Cons.IH)
  also have "\<dots> = (row @ map (random_cell g) [0..<length (x # xs)], \<lambda>n. g (n + length (x # xs)))"
    by (simp add: shift map_upt_Suc del: upt_Suc)
  finally show ?case .
qed

lemma random_row_eq:
  "random_row y (p, g) = (p @ random_row_text g @ [NL], \<lambda>n. g (n + 16))"
  by (simp add: random_row_def fold_push_random random_row_text_def del: upt_Suc)

lemma fold_random_row:
  "fold random_row ys (p, g)
     = (p @ concat (map (\<lambda>j. random_row_text (\<lambda>n. g (n + 16 * j)) @ [NL]) [0..<length ys]),
        \<lambda>n. g (n + 16 * length ys))"
proof (induction ys arbitrary: p g)
  case Nil
  show ?case by simp
next
  case (Cons y ys)
  have "fold random_row (y # ys) (p, g)
      = fold random_row ys (p @ random_row_text g @ [NL], \<lambda>n. g (n + 16))"
    by (simp add: random_row_eq)
  also have "\<dots> = ((p @ random_row_text g @ [NL])
        @ concat (map (\<lambda>j. random_row_text (\<lambda>n. g (n + 16 * j + 16)) @ [NL]) [0..<length ys]),
      \<lambda>n. g (n + 16 * length ys + 16))"
    by (simp add: Cons.IH)
  also have "\<dots> = (p @ concat (map (\<lambda>j. random_row_text (\<lambda>n. g (n + 16 * j)) @ [NL]) [0..<length (y # ys)]),
      \<lambda>n. g (n + 16 * length (y # ys)))"
    by (simp add: map_upt_Suc add.commute add.left_commute del: upt_Suc)
  finally show ?case .
qed

lemma random_channel_eq:
  "random_channel i (p, g)
     = (p @ random_block g @ (if i < 2 then [NL] else []), \<lambda>n. g (n + 256))"
  by (simp add: random_channel_def fold_random_row random_block_def del: upt_Suc)

lemma generateSimplePattern_eq:
  "generateSimplePattern g
     = (random_block g @ [NL] @ random_block (\<lambda>n. g (n + 256)) @ [NL]
          @ random_block (\<lambda>n. g (n + 512)),
        \<lambda>n. g (n + 768))"
  by (simp add: generateSimplePattern_def upt3 random_channel_eq add.commute add.left_commute)

lemma random_block_start:
  "\<exists>rest. random_block g = random_cell g 0 @ SP # rest"
proof -
  have u: "[0..<16] = 0 # 1 # [2..<16]"
    by (simp add: upt_conv_Cons)
  show ?thesis
    unfolding random_block_def random_row_text_def
    by (subst u, subst u) simp
qed

lemma random_pattern_start:
  "\<exists>rest. fst (generateSimplePattern g) = random_cell g 0 @ SP # rest"
  using random_block_start [of g] by (auto simp: generateSimplePattern_eq)

subsection \<open>Where the servers differ from one another\<close>

lemma padStart_0: "padStart 3 SP (toString 0) = ''  0''"
  by code_simp

lemma padStart_127: "padStart 3 SP (toString 127) = ''127''"
  by code_simp

lemma padStart_128: "padStart 3 SP (toString 128) = ''128''"
  by code_simp

lemma random_cell_zero: "random_cell (\<lambda>n. 0) 0 = ''  0''"
  by (simp add: random_cell_def padStart_0)

lemma random_cell_half: "random_cell (\<lambda>n. 1 / 2) 0 = ''128''"
  by (simp add: random_cell_def padStart_128)

lemma generatePattFile_disk_writes:
  "\<not> write_fails w path \<Longrightarrow>
   fst (generatePattFile_disk g imagePath path w)
     = Inr (w\<lparr>files := (files w)(path \<mapsto> Raw (fst (generateSimplePattern g)))\<rparr>)"
  by (simp add: generatePattFile_disk_def writeFile_def split: prod.splits)

text \<open>
  C2. The claim: two runs of pattern generation on the same image with the same
  configuration write the same bytes. In the disk-storage server the pattern is made of
  draws of \<open>Math.random\<close> and the image is never read: with the same image path, the
  same output path and the same files, the text written begins with \<open>0\<close> when the
  draws are 0 and with \<open>128\<close> when they are one half.
\<close>

theorem random_pattern_not_reproducible:
  "(\<exists>w1 p1. fst (generatePattFile_disk (\<lambda>n. 0) ''uploads/1-optimized.jpg'' ''markers/1.patt'' empty_world)
        = Inr w1
      \<and> files w1 ''markers/1.patt'' = Some (Raw p1) \<and> take 3 p1 = ''  0'')
   \<and> (\<exists>w2 p2. fst (generatePattFile_disk (\<lambda>n. 1 / 2) ''uploads/1-optimized.jpg'' ''markers/1.patt'' empty_world)
        = Inr w2
      \<and> files w2 ''markers/1.patt'' = Some (Raw p2) \<and> take 3 p2 = ''128'')"
proof -
  have f: "\<not> write_fails empty_world ''markers/1.patt''"
    by (simp add: empty_world_def)
  obtain r1 where r1: "fst (generateSimplePattern (\<lambda>n. 0)) = ''  0'' @ SP # r1"
    using random_pattern_start [of "\<lambda>n. 0"] by (auto simp: random_cell_zero)
  obtain r2 where r2: "fst (generateSimplePattern (\<lambda>n. 1 / 2)) = ''128'' @ SP # r2"
    using random_pattern_start [of "\<lambda>n. 1 / 2"] by (auto simp: random_cell_half)
  show ?thesis
    by (simp add: generatePattFile_disk_writes [OF f] r1 r2)
qed

lemma to_raw_first:
  "0 < width img \<Longrightarrow> 0 < height img \<Longrightarrow> 0 < bands img \<Longrightarrow>
   data (to_raw img) ! 0 = srgb_at img 0 0 0"
proof -
  assume "0 < width img" and "0 < height img" and "0 < bands img"
  moreover from this have "0 < srgb_bands (bands img)"
    using srgb_bands_ge [of "bands img"] by simp
  ultimately show ?thesis
    by (simp add: to_raw_def upt_conv_Cons)
qed

lemma block_text_start:
  "\<exists>rest. block_text img c = cell_text img c 0 0 @ SP # rest"
proof -
  have u: "[0..<16] = 0 # 1 # [2..<16]"
    by (simp add: upt_conv_Cons)
  show ?thesis
    unfolding block_text_def row_text_def
    by (subst u, subst u) simp
qed

lemma pattern_of_start:
  assumes "pattern_of img = Inr p"
  shows "\<exists>rest. p = padStart 3 SP (toString (unat (data img ! 0))) @ SP # rest"
proof -
  have p: "p = block_text img 0 @ NL # block_text img 1 @ NL # block_text img 2"
    using assms by (simp add: pattern_of_eq split: if_splits)
  obtain rest where "block_text img 0 = cell_text img 0 0 0 @ SP # rest"
    using block_text_start by blast
  then show ?thesis
    by (simp add: p cell_text_def pixelIndex_def)
qed

lemma generatePattFile_kernel_eq:
  "generatePattFile lib (Encoded fmt img) path w
     = (case pattern_of (to_raw \<lparr>width = 16, height = 16, bands = bands img,
                                 px = resample lib Fill Lanczos3 16 16 img\<rparr>) of
          Inl e \<Rightarrow> Inl e
        | Inr p \<Rightarrow> writeFile path (Raw p) w)"
  by (simp add: generatePattFile_def sharp_def sharp_resize_def resize_dims_def patt_options_def
      may_enlarge_def kernel_of_def)

text \<open>
  C3. The claim: every pattern is downsampled with the nearest-neighbour kernel, so every
  value written is a byte of the working image. \<open>generateRealPattFile\<close> asks for that
  kernel; \<open>generatePattFile\<close> of part 001 names none, so sharp resamples with its
  default, \<open>lanczos3\<close>. With a library whose \<open>lanczos3\<close> averages neighbouring
  pixels, the pattern of a black and white image begins with 127, which is no byte of
  that image.
\<close>

theorem patt_file_default_kernel:
  "kernel_of real_patt_options = Nearest
   \<and> kernel_of patt_options = Lanczos3
   \<and> (\<forall>lib fmt img path w. generatePattFile lib (Encoded fmt img) path w
        = (case pattern_of (to_raw \<lparr>width = 16, height = 16, bands = bands img,
                                    px = resample lib Fill Lanczos3 16 16 img\<rparr>) of
             Inl e \<Rightarrow> Inl e
           | Inr p \<Rightarrow> writeFile path (Raw p) w))
   \<and> (\<exists>w2 p. generatePattFile averaging_lib (Encoded JPEG striped_image) ''markers/1.patt'' empty_world
          = Inr w2
        \<and> files w2 ''markers/1.patt'' = Some (Raw p) \<and> take 3 p = ''127''
        \<and> (\<forall>x y c. px striped_image x y c \<noteq> 127))"
proof -
  let ?raw = "to_raw \<lparr>width = 16, height = 16, bands = bands striped_image,
                px = resample averaging_lib Fill Lanczos3 16 16 striped_image\<rparr>"
  have a: "kernel_of real_patt_options = Nearest" "kernel_of patt_options = Lanczos3"
    by (simp_all add: kernel_of_def real_patt_options_def patt_options_def)
  have c: "3 \<le> channels ?raw" "length (data ?raw) = 16 * 16 * channels ?raw"
    by (simp_all add: to_raw_channels to_raw_length striped_image_def srgb_bands_def)
  obtain p where p: "pattern_of ?raw = Inr p"
    using pattern_of_succeeds [OF c] by blast
  have "data ?raw ! 0 = 127"
    by (simp add: to_raw_first srgb_at_def striped_image_def averaging_lib_def plain_lib_def)
  then obtain rest where "p = ''127'' @ SP # rest"
    using pattern_of_start [OF p] by (auto simp: padStart_127)
  then have t: "take 3 p = ''127''"
    by simp
  have g: "generatePattFile averaging_lib (Encoded JPEG striped_image) ''markers/1.patt'' empty_world
      = Inr (empty_world\<lparr>files := (files empty_world)(''markers/1.patt'' \<mapsto> Raw p)\<rparr>)"
    by (simp add: generatePattFile_kernel_eq p writeFile_def empty_world_def)
  have n: "\<forall>x y c. px striped_image x y c \<noteq> 127"
    by (simp add: striped_image_def)
  show ?thesis
    using a generatePattFile_kernel_eq g t n by auto
qed

text \<open>With the options of the MindAR server no image comes out larger than it went in.\<close>

lemma div_round_le:
  assumes "0 < w" and "W \<le> w"
  shows "div_round (h * W) w \<le> h"
proof -
  have "2 * (h * W) + w \<le> 2 * (h * w) + w"
    using assms(2) by simp
  also have "\<dots> < (h + 1) * (2 * w)"
    using assms(1) by (simp add: algebra_simps)
  finally have "(2 * (h * W) + w) div (2 * w) < h + 1"
    using assms(1) by (simp add: div_less_iff_less_mult)
  then show ?thesis
    by (simp add: div_round_def)
qed

lemma mind_options_never_enlarge:
  assumes "0 < w" and "0 < h"
  shows "fst (resize_dims mind_options 480 480 w h) \<le> w \<and> snd (resize_dims mind_options 480 480 w h) \<le> h
     \<and> fst (resize_dims mind_options 480 480 w h) \<le> 480 \<and> snd (resize_dims mind_options 480 480 w h) \<le> 480"
proof (cases "w \<le> 480 \<and> h \<le> 480")
  case True
  then show ?thesis
    by (simp add: resize_dims_def mind_options_def may_enlarge_def)
next
  case False
  show ?thesis
  proof (cases "480 * h \<le> 480 * w")
    case True
    then have hw: "h \<le> w" by simp
    then have w480: "480 \<le> w" using False by arith
    have a: "div_round (h * 480) w \<le> h"
      using div_round_le [OF assms(1) w480] .
    have "h * 480 \<le> 480 * w" using hw by simp
    then have "2 * (h * 480) + w \<le> 480 * (2 * w) + w" by simp
    also have "\<dots> < 481 * (2 * w)" using assms(1) by simp
    finally have "(2 * (h * 480) + w) div (2 * w) < 481"
      using assms(1) by (simp add: div_less_iff_less_mult)
    then have b: "div_round (h * 480) w \<le> 480"
      by (simp add: div_round_def)
    show ?thesis
      using False True a b w480 assms(2)
      by (simp add: resize_dims_def mind_options_def may_enlarge_def)
  next
    case c: False
    then have wh: "w < h" by simp
    then have h480: "480 \<le> h" using False by arith
    have a: "div_round (w * 480) h \<le> w"
      using div_round_le [OF assms(2) h480] .
    have "w * 480 \<le> 480 * h" using wh by simp
    then have "2 * (w * 480) + h \<le> 480 * (2 * h) + h" by simp
    also have "\<dots> < 481 * (2 * h)" using assms(2) by simp
    finally have "(2 * (w * 480) + h) div (2 * h) < 481"
      using assms(2) by (simp add: div_less_iff_less_mult)
    then have b: "div_round (w * 480) h \<le> 480"
      by (simp add: div_round_def)
    show ?thesis
      using False c a b h480 assms(1)
      by (simp add: resize_dims_def mind_options_def may_enlarge_def)
  qed
qed

text \<open>
  C8. The claim: with fit \<open>inside\<close> an image is never enlarged. The MindAR server
  passes \<open>withoutEnlargement: true\<close> and leaves a 100 by 100 image at its size; part
  001 (and the disk-storage server, with the same options) does not, and the same image
  comes out 512 by 512.
\<close>

theorem inside_fit_enlarges:
  "resize_dims inside_options 512 512 100 100 = (512, 512)
   \<and> resize_dims mind_options 480 480 100 100 = (100, 100)
   \<and> (\<exists>im. resize_to_jpeg plain_lib inside_options 512 512 90 (Encoded PNG (flat_image 100 100 3 7))
          = Inr (Encoded JPEG im) \<and> width im = 512 \<and> height im = 512)"
  by (simp add: resize_dims_def inside_options_def mind_options_def may_enlarge_def resize_to_jpeg_def
      sharp_def sharp_resize_def jpeg_image_def flat_image_def div_round_def)

text \<open>Where the filter is installed, an upload that fails either test is refused.\<close>

lemma fileFilter_rejects:
  assumes "\<not> allowedTypes_test (mimetype f) \<or> \<not> allowedTypes_test (toLowerCase (extname (originalname f)))"
  shows "multer_single (Some fileFilter) (Some f) = Inl UploadError"
  using assms by (auto simp: multer_single_def fileFilter_def Let_def)

text \<open>
  C7. The claim: an upload whose extension or MIME type is not JPEG or PNG is rejected by
  the upload filter before any decoding. The MindAR server installs no filter: a text
  file reaches the handler, and it is the decoder that fails. Where the filter is
  installed its test is an unanchored search for \<open>jpeg\<close>, \<open>jpg\<close> or \<open>png\<close>:
  \<open>archive.pngz\<close> of type \<open>application/x-png-archive\<close> passes it and reaches the
  decoder too.
\<close>

theorem upload_filter_gaps:
  "\<not> is_jpeg_png_ext (originalname notes_txt) \<and> \<not> is_jpeg_png_mime (mimetype notes_txt)
   \<and> multer_single (upload_filter MindAR) (Some notes_txt) = Inr (Some notes_txt)
   \<and> fst (post_mind plain_lib test_env (Some notes_txt) empty_world)
       = \<lparr>status = 500, body = ErrorBody MarkerGenerationFailed (Some DecodeError)\<rparr>
   \<and> \<not> is_jpeg_png_ext (originalname archive_pngz) \<and> \<not> is_jpeg_png_mime (mimetype archive_pngz)
   \<and> fileFilter archive_pngz
   \<and> multer_single (upload_filter MemoryBordered) (Some archive_pngz) = Inr (Some archive_pngz)
   \<and> fst (post_bordered plain_lib test_env (Some archive_pngz) empty_world)
       = \<lparr>status = 500, body = ErrorBody MarkerGenerationFailed (Some DecodeError)\<rparr>"
proof -
  have n1: "\<not> is_jpeg_png_ext (originalname notes_txt)"
    by (simp add: notes_txt_def is_jpeg_png_ext_def extname_def basename_def toLowerCase_def)
  have n2: "\<not> is_jpeg_png_mime (mimetype notes_txt)"
    by (simp add: notes_txt_def is_jpeg_png_mime_def)
  have n3: "multer_single (upload_filter MindAR) (Some notes_txt) = Inr (Some notes_txt)"
    by (simp add: multer_single_def upload_filter_def notes_txt_def)
  have n4: "fst (post_mind plain_lib test_env (Some notes_txt) empty_world)
       = \<lparr>status = 500, body = ErrorBody MarkerGenerationFailed (Some DecodeError)\<rparr>"
    by (simp add: post_mind_def n3 generate_marker_mind_def)
       (simp add: notes_txt_def resize_to_jpeg_def sharp_def failed_def)
  have a1: "\<not> is_jpeg_png_ext (originalname archive_pngz)"
    by (simp add: archive_pngz_def is_jpeg_png_ext_def extname_def basename_def toLowerCase_def)
  have a2: "\<not> is_jpeg_png_mime (mimetype archive_pngz)"
    by (simp add: archive_pngz_def is_jpeg_png_mime_def)
  have a3: "fileFilter archive_pngz"
    by (simp add: archive_pngz_def fileFilter_def allowedTypes_test_def extname_def basename_def
        toLowerCase_def)
  have a4: "multer_single (upload_filter MemoryBordered) (Some archive_pngz) = Inr (Some archive_pngz)"
    using a3 by (simp add: multer_single_def upload_filter_def) (simp add: archive_pngz_def)
  have a5: "fst (post_bordered plain_lib test_env (Some archive_pngz) empty_world)
       = \<lparr>status = 500, body = ErrorBody MarkerGenerationFailed (Some DecodeError)\<rparr>"
    by (simp add: post_bordered_def a4 generate_marker_bordered_def)
       (simp add: archive_pngz_def resize_to_jpeg_def sharp_def failed_def)
  from n1 n2 n3 n4 a1 a2 a3 a4 a5 show ?thesis by blast
qed

subsection \<open>The MindAR server and its fallback\<close>

lemma toString_digit: "n < 10 \<Longrightarrow> toString n = [digit_char n]"
  by (subst toString.simps) simp

lemma toString_step: "10 \<le> n \<Longrightarrow> toString n = toString (n div 10) @ [digit_char (n mod 10)]"
  by (subst toString.simps) simp

lemma digit_chars:
  "digit_char 0 = CHR ''0''" "digit_char (Suc 0) = CHR ''1''" "digit_char 2 = CHR ''2''"
  "digit_char 3 = CHR ''3''" "digit_char 4 = CHR ''4''" "digit_char 5 = CHR ''5''"
  "digit_char 6 = CHR ''6''" "digit_char 7 = CHR ''7''" "digit_char 8 = CHR ''8''"
  "digit_char 9 = CHR ''9''"
  unfolding digit_char_def by code_simp+

lemma env_now_text: "toString (now test_env) = ''1700000000000''"
  by (simp add: test_env_def toString_digit toString_step digit_chars)

lemma env_draw_text:
  "toString (nat \<lfloor>random_times_1E9 test_env + 1 / 2\<rfloor>) = ''250000000''"
proof -
  have "\<lfloor>(250000000 :: rat) + 1 / 2\<rfloor> = 250000000"
    by (rule floor_unique) simp_all
  then show ?thesis
    by (simp add: test_env_def toString_digit toString_step digit_chars)
qed

lemma env_baseUrl: "baseUrl test_env = ''http://localhost:3000''"
  by (simp add: baseUrl_def test_env_def)

lemma fallback_ok:
  "\<not> write_fails w path \<Longrightarrow>
   fallback err path w
     = (Inr (), (console_log ''fallback mode: simple target'' (console_error ''MindAR compile error'' err w))
                  \<lparr>files := (files w)(path \<mapsto> Raw ''MINDAR_COMPILED'')\<rparr>)"
  by (simp add: fallback_def writeFile_def console_log_def console_error_def)

lemma compileMindARTarget_throws:
  assumes "\<not> write_fails w path"
    and "mindar_load e b = Inl err \<or> (\<exists>d. mindar_load e b = Inr d \<and> mindar_compile e d = Inl err)"
  shows "\<exists>w'. compileMindARTarget e b path w = (Inr (), w')
     \<and> files w' = (files w)(path \<mapsto> Raw ''MINDAR_COMPILED'')
     \<and> write_fails w' = write_fails w
     \<and> Failure ''MindAR compile error'' err \<in> set (console w')"
  using assms(2)
proof
  assume "mindar_load e b = Inl err"
  then show ?thesis
    using assms(1) by (simp add: compileMindARTarget_def fallback_ok console_log_def console_error_def)
next
  assume "\<exists>d. mindar_load e b = Inr d \<and> mindar_compile e d = Inl err"
  then obtain d where d: "mindar_load e b = Inr d" "mindar_compile e d = Inl err"
    by blast
  have "\<not> write_fails (console_log ''MindAR compile start'' w) path"
    using assms(1) by (simp add: console_log_def)
  then show ?thesis
    by (simp add: compileMindARTarget_def d fallback_ok console_log_def console_error_def)
qed

text \<open>
  C4. In the MindAR server, when the upload is resized and stored and the compiler step
  throws (on loading or on compiling), the handler still answers with status 200 and
  the success body; the placeholder \<open>MINDAR_COMPILED\<close> is the file at the output
  path, and the failure is on the console only.
\<close>

theorem mind_compile_failure_absorbed:
  assumes "resize_to_jpeg lib mind_options 480 480 90 (buffer f) = Inr optimized"
    and "\<not> write_fails w (''./public/targets/'' @ toString (now e) @ ''.jpg'')"
    and "\<not> write_fails w (''./public/targets/'' @ toString (now e) @ ''.mind'')"
    and "mindar_load e optimized = Inl err
       \<or> (\<exists>d. mindar_load e optimized = Inr d \<and> mindar_compile e d = Inl err)"
  shows "fst (generate_marker_mind lib e (Some f) w)
       = \<lparr>status = 200,
          body = SuccessBody (baseUrl e @ ''/targets/'' @ toString (now e) @ ''.mind'')
                   (baseUrl e @ ''/targets/'' @ toString (now e) @ ''.jpg'')\<rparr>
     \<and> files (snd (generate_marker_mind lib e (Some f) w)) (''./public/targets/'' @ toString (now e) @ ''.mind'')
       = Some (Raw ''MINDAR_COMPILED'')
     \<and> files (snd (generate_marker_mind lib e (Some f) w)) (''./public/targets/'' @ toString (now e) @ ''.jpg'')
       = Some optimized
     \<and> Failure ''MindAR compile error'' err \<in> set (console (snd (generate_marker_mind lib e (Some f) w)))"
proof -
  let ?jpg = "''./public/targets/'' @ toString (now e) @ ''.jpg''"
  let ?mind = "''./public/targets/'' @ toString (now e) @ ''.mind''"
  let ?w1 = "console_log ''image optimised''
               (console_log (''image processing started: '' @ toString (now e)) w)"
  let ?w2 = "?w1\<lparr>files := (files ?w1)(?jpg \<mapsto> optimized)\<rparr>"
  have wr: "writeFile ?jpg optimized ?w1 = Inr ?w2"
    using assms(2) by (simp add: writeFile_def console_log_def)
  have nf: "\<not> write_fails ?w2 ?mind"
    using assms(3) by (simp add: console_log_def)
  obtain w3 where w3: "compileMindARTarget e optimized ?mind ?w2 = (Inr (), w3)"
    and f3: "files w3 = (files ?w2)(?mind \<mapsto> Raw ''MINDAR_COMPILED'')"
    and c3: "Failure ''MindAR compile error'' err \<in> set (console w3)"
    using compileMindARTarget_throws [OF nf assms(4)] by blast
  have r: "generate_marker_mind lib e (Some f) w
      = (\<lparr>status = 200,
          body = SuccessBody (baseUrl e @ ''/targets/'' @ toString (now e) @ ''.mind'')
                   (baseUrl e @ ''/targets/'' @ toString (now e) @ ''.jpg'')\<rparr>,
         console_log ''MindAR compile done'' w3)"
    using wr w3 by (simp add: generate_marker_mind_def assms(1) Let_def)
  have ne: "?jpg \<noteq> ?mind"
    by simp
  have "files (console_log ''MindAR compile done'' w3) ?mind = Some (Raw ''MINDAR_COMPILED'')"
    unfolding console_log_def by (simp add: f3)
  moreover have "files (console_log ''MindAR compile done'' w3) ?jpg = Some optimized"
    unfolding console_log_def using ne by (simp add: f3)
  moreover have "Failure ''MindAR compile error'' err \<in> set (console (console_log ''MindAR compile done'' w3))"
    using c3 by (simp add: console_log_def)
  ultimately show ?thesis
    unfolding r fst_conv snd_conv by blast
qed

theorem mind_compile_failure_absorbed_witness:
  "fst (generate_marker_mind plain_lib test_env (Some photo_jpg) empty_world)
       = \<lparr>status = 200,
          body = SuccessBody ''http://localhost:3000/targets/1700000000000.mind''
                   ''http://localhost:3000/targets/1700000000000.jpg''\<rparr>
     \<and> files (snd (generate_marker_mind plain_lib test_env (Some photo_jpg) empty_world))
          ''./public/targets/1700000000000.mind''
       = Some (Raw ''MINDAR_COMPILED'')
     \<and> Failure ''MindAR compile error'' CompileError
         \<in> set (console (snd (generate_marker_mind plain_lib test_env (Some photo_jpg) empty_world)))"
proof -
  note n = env_now_text and u = env_baseUrl
  obtain optimized where o: "resize_to_jpeg plain_lib mind_options 480 480 90 (buffer photo_jpg) = Inr optimized"
    by (simp add: resize_to_jpeg_def sharp_def photo_jpg_def)
  have w: "\<not> write_fails empty_world (''./public/targets/'' @ toString (now test_env) @ ''.jpg'')"
    "\<not> write_fails empty_world (''./public/targets/'' @ toString (now test_env) @ ''.mind'')"
    by (simp_all add: empty_world_def)
  have c: "mindar_load test_env optimized = Inl CompileError
       \<or> (\<exists>d. mindar_load test_env optimized = Inr d
              \<and> mindar_compile test_env d = Inl CompileError)"
    by (simp add: test_env_def)
  show ?thesis
    using mind_compile_failure_absorbed [OF o w c] by (simp add: n u)
qed

subsection \<open>The bordered target\<close>

lemma svg_px:
  assumes "x < 512" and "y < 512"
  shows "px (render_svg svgBorder) x y c
     = (if c = 3 then 255 else if 40 \<le> x \<and> x < 472 \<and> 40 \<le> y \<and> y < 472 then 255 else 0)"
  using assms by (simp add: render_svg_def svgBorder_def covers_def colour_byte_def)

lemma svg_dims:
  "width (render_svg svgBorder) = 512" "height (render_svg svgBorder) = 512"
  "bands (render_svg svgBorder) = 4"
  by (simp_all add: render_svg_def svgBorder_def)

lemma svg_alpha: "x < 512 \<Longrightarrow> y < 512 \<Longrightarrow> alpha_at (render_svg svgBorder) x y = 255"
  by (simp add: alpha_at_def svg_dims svg_px)

lemma resizedImage_dims:
  "width (resizedImage lib fmt img) = imageSize" "height (resizedImage lib fmt img) = imageSize"
  by (cases fmt; simp add: resizedImage_def reencode_def jpeg_image_def sharp_resize_def
      resize_dims_def cover_options_def may_enlarge_def)+

lemma resizedImage_jpeg_opaque: "alpha_at (resizedImage lib JPEG img) x y = 255"
  by (simp add: alpha_at_def resizedImage_def reencode_def jpeg_image_def jpeg_bands_def srgb_bands_def)

lemma composite_border:
  "composite1 lib \<lparr>ov_input = render_svg svgBorder, ov_top = 0, ov_left = 0\<rparr> white_canvas
     = Inr (border_layer lib)"
  by (simp add: composite1_def svg_dims white_canvas_def border_layer_def Let_def cong: if_cong)

lemma border_layer_dims: "width (border_layer lib) = 512" "height (border_layer lib) = 512"
  by (simp_all add: border_layer_def white_canvas_def)

lemma border_layer_px:
  assumes "x < 512" and "y < 512" and "c < 3"
  shows "px (border_layer lib) x y c = (if 40 \<le> x \<and> x < 472 \<and> 40 \<le> y \<and> y < 472 then 255 else 0)"
  using assms by (simp add: border_layer_def svg_alpha rgba_at_def svg_dims svg_px Let_def)

lemma composite_image:
  "composite1 lib \<lparr>ov_input = resizedImage lib fmt img, ov_top = borderSize, ov_left = borderSize\<rparr>
       (border_layer lib)
     = Inr (image_layer lib fmt img)"
  by (simp add: composite1_def resizedImage_dims border_layer_dims image_layer_def imageSize_def Let_def cong: if_cong)

lemma target_canvas_eq: "target_canvas lib fmt img = Inr (image_layer lib fmt img)"
  by (simp add: target_canvas_def composite_border composite_image)

lemma createTargetImage_eq:
  "createTargetImage lib (Encoded fmt img) outputPath w
     = writeFile outputPath (Encoded PNG (image_layer lib fmt img)) w"
  by (simp add: createTargetImage_def sharp_def target_canvas_eq)

lemma image_layer_dims:
  "width (image_layer lib fmt img) = 512" "height (image_layer lib fmt img) = 512"
  by (simp_all add: image_layer_def border_layer_dims)

lemma image_layer_border:
  assumes "x < 512" and "y < 512" and "x < 40 \<or> y < 40 \<or> 472 \<le> x \<or> 472 \<le> y" and "c < 3"
  shows "px (image_layer lib fmt img) x y c = colour_byte Black"
proof -
  have out: "\<not> (borderSize \<le> x \<and> x < borderSize + imageSize \<and> borderSize \<le> y \<and> y < borderSize + imageSize)"
    using assms(3) by (auto simp: borderSize_def imageSize_def)
  have "px (border_layer lib) x y c = 0"
    using assms by (auto simp: border_layer_px)
  then show ?thesis
    using out by (auto simp: image_layer_def colour_byte_def Let_def)
qed

lemma image_layer_inset:
  assumes "x < imageSize" and "y < imageSize"
  shows "px (image_layer lib JPEG img) (borderSize + x) (borderSize + y) c
     = rgba_at (resizedImage lib JPEG img) x y c"
  using assms by (simp add: image_layer_def resizedImage_jpeg_opaque Let_def)

text \<open>
  C6. The target image \<open>createTargetImage\<close> writes for a JPEG input (the handler always
  passes one) is a canvas of exactly 512 by 512 pixels; within 40 pixels of every edge it
  has the border colour, black; the input, resized to \<open>imageSize\<close>, which is the canvas
  size less twice \<open>borderSize\<close>, lies \<open>borderSize\<close> pixels in from the left and from
  the top, so each of its pixels, the first included, is the canvas pixel at that offset.
\<close>

theorem bordered_target_canvas:
  assumes "createTargetImage lib (Encoded JPEG img) outputPath w = Inr w'"
  shows "\<exists>canvas. files w' outputPath = Some (Encoded PNG canvas)
     \<and> width canvas = 512 \<and> height canvas = 512
     \<and> (\<forall>x<512. \<forall>y<512. x < 40 \<or> y < 40 \<or> 472 \<le> x \<or> 472 \<le> y \<longrightarrow>
           (\<forall>c<3. px canvas x y c = colour_byte Black))
     \<and> imageSize = 512 - 2 * borderSize
     \<and> width (resizedImage lib JPEG img) = imageSize
     \<and> height (resizedImage lib JPEG img) = imageSize
     \<and> (\<forall>x<imageSize. \<forall>y<imageSize. \<forall>c<3.
           px canvas (borderSize + x) (borderSize + y) c = rgba_at (resizedImage lib JPEG img) x y c)"
proof -
  have f: "files w' outputPath = Some (Encoded PNG (image_layer lib JPEG img))"
    using assms by (auto simp: createTargetImage_eq writeFile_def split: if_splits)
  have s: "imageSize = 512 - 2 * borderSize"
    by (simp add: imageSize_def borderSize_def)
  show ?thesis
    using f s image_layer_dims [of lib JPEG img] image_layer_border [of _ _ _ lib JPEG img]
      resizedImage_dims [of lib JPEG img] image_layer_inset [of _ _ lib img]
    by blast
qed

theorem bordered_target_canvas_witness:
  "\<exists>w' canvas.
     createTargetImage plain_lib (Encoded JPEG (flat_image 1000 800 3 7)) ''t.png'' empty_world = Inr w'
     \<and> files w' ''t.png'' = Some (Encoded PNG canvas)
     \<and> width canvas = 512 \<and> height canvas = 512
     \<and> px canvas 0 0 0 = 0 \<and> px canvas 39 200 1 = 0 \<and> px canvas 300 472 2 = 0
     \<and> px canvas 50 50 0 = 7 \<and> px canvas 461 461 2 = 7"
proof -
  let ?img = "flat_image 1000 800 3 7"
  obtain w' where w': "createTargetImage plain_lib (Encoded JPEG ?img) ''t.png'' empty_world = Inr w'"
    by (simp add: createTargetImage_eq writeFile_def empty_world_def)
  obtain canvas where c: "files w' ''t.png'' = Some (Encoded PNG canvas)"
    "width canvas = 512" "height canvas = 512"
    and border: "\<forall>x<512. \<forall>y<512. x < 40 \<or> y < 40 \<or> 472 \<le> x \<or> 472 \<le> y \<longrightarrow>
           (\<forall>c<3. px canvas x y c = colour_byte Black)"
    and inset: "\<forall>x<imageSize. \<forall>y<imageSize. \<forall>c<3.
           px canvas (borderSize + x) (borderSize + y) c = rgba_at (resizedImage plain_lib JPEG ?img) x y c"
    using bordered_target_canvas [OF w'] by blast
  have r: "rgba_at (resizedImage plain_lib JPEG ?img) x y c = 7" if "c < 3" for x y c
    using that
    by (simp add: rgba_at_def resizedImage_def reencode_def jpeg_image_def jpeg_bands_def srgb_bands_def sharp_resize_def
        resize_dims_def cover_options_def may_enlarge_def plain_lib_def flat_image_def kernel_of_def)
  have b1: "px canvas 0 0 0 = 0" "px canvas 39 200 1 = 0" "px canvas 300 472 2 = 0"
    using border by (simp_all add: colour_byte_def)
  have i: "px canvas 50 50 0 = 7" "px canvas 461 461 2 = 7"
    using inset [rule_format, of 0 0 0] inset [rule_format, of 411 411 2] r [of 0] r [of 2]
    by (simp_all add: imageSize_def borderSize_def)
  show ?thesis
    using w' c b1 i by blast
qed

subsection \<open>Small images\<close>

lemma resize_to_jpeg_ok:
  "resize_to_jpeg lib opts W H q (Encoded fmt img)
     = Inr (Encoded JPEG (jpeg_image lib q (sharp_resize lib opts W H img)))"
  by (simp add: resize_to_jpeg_def sharp_def)

lemma jpeg_image_bands:
  "0 < bands img \<Longrightarrow> 0 < bands (jpeg_image lib q (sharp_resize lib opts W H img))"
  by (auto simp: jpeg_image_def jpeg_bands_def srgb_bands_def sharp_resize_def split: prod.splits)

lemma generate_marker_bordered_ok:
  assumes b: "buffer f = Encoded fmt img"
    and c: "0 < bands img"
    and t: "\<not> write_fails w (''./public/targets/'' @ toString (now e) @ ''-''
              @ toString (nat \<lfloor>random_times_1E9 e + 1 / 2\<rfloor>) @ ''.png'')"
    and m: "\<not> write_fails w (''./public/markers/'' @ toString (now e) @ ''-''
              @ toString (nat \<lfloor>random_times_1E9 e + 1 / 2\<rfloor>) @ ''.patt'')"
  shows "status (fst (generate_marker_bordered lib e (Some f) w)) = 200
     \<and> files (snd (generate_marker_bordered lib e (Some f) w))
          (''./public/targets/'' @ toString (now e) @ ''-''
              @ toString (nat \<lfloor>random_times_1E9 e + 1 / 2\<rfloor>) @ ''.png'') \<noteq> None
     \<and> files (snd (generate_marker_bordered lib e (Some f) w))
          (''./public/markers/'' @ toString (now e) @ ''-''
              @ toString (nat \<lfloor>random_times_1E9 e + 1 / 2\<rfloor>) @ ''.patt'') \<noteq> None"
proof -
  let ?name = "toString (now e) @ ''-'' @ toString (nat \<lfloor>random_times_1E9 e + 1 / 2\<rfloor>)"
  let ?tp = "''./public/targets/'' @ ?name @ ''.png''"
  let ?mp = "''./public/markers/'' @ ?name @ ''.patt''"
  let ?opt = "jpeg_image lib 90 (sharp_resize lib inside_options 512 512 img)"
  let ?w1 = "console_log ''image optimised'' (console_log (''image processing started: '' @ ?name) w)"
  let ?w2 = "?w1\<lparr>files := (files ?w1)(?tp \<mapsto> Encoded PNG (image_layer lib JPEG ?opt))\<rparr>"
  let ?w3 = "console_log ''target image created'' ?w2"
  have o: "resize_to_jpeg lib inside_options 512 512 90 (buffer f) = Inr (Encoded JPEG ?opt)"
    by (simp add: b resize_to_jpeg_ok)
  have ct: "createTargetImage lib (Encoded JPEG ?opt) ?tp ?w1 = Inr ?w2"
    using t by (simp add: createTargetImage_eq writeFile_def console_log_def)
  have b3: "0 < bands ?opt"
    using jpeg_image_bands [OF c, of lib 90 inside_options 512 512] .
  have nf: "\<not> write_fails ?w3 ?mp"
    using m by (simp add: console_log_def)
  obtain p where gp: "generatePattFile lib (Encoded JPEG ?opt) ?mp ?w3
      = Inr (?w3\<lparr>files := (files ?w3)(?mp \<mapsto> Raw p)\<rparr>)"
    using generatePattFile_ok [OF b3 nf] by blast
  have r: "generate_marker_bordered lib e (Some f) w
      = (\<lparr>status = 200,
          body = SuccessBody (baseUrl e @ ''/markers/'' @ ?name @ ''.patt'')
                   (baseUrl e @ ''/targets/'' @ ?name @ ''.png'')\<rparr>,
         console_log ''marker file created'' (?w3\<lparr>files := (files ?w3)(?mp \<mapsto> Raw p)\<rparr>))"
    using o ct gp by (simp add: generate_marker_bordered_def Let_def)
  show ?thesis
    unfolding r fst_conv snd_conv by (simp add: console_log_def)
qed

text \<open>
  C9, the claim as stated: an upload below the minimum usable size is answered with a 4xx
  status and nothing is written. The server of part 001 never looks at the size: for a
  10 by 10 PNG the status is 200 and both the target and the pattern file are written.
\<close>

theorem tiny_upload_accepted:
  "width (flat_image 10 10 3 7) < 300 \<and> height (flat_image 10 10 3 7) < 300
   \<and> buffer tiny_png = Encoded PNG (flat_image 10 10 3 7)
   \<and> status (fst (post_bordered plain_lib test_env (Some tiny_png) empty_world)) = 200
   \<and> files (snd (post_bordered plain_lib test_env (Some tiny_png) empty_world))
        ''./public/targets/1700000000000-250000000.png'' \<noteq> None
   \<and> files (snd (post_bordered plain_lib test_env (Some tiny_png) empty_world))
        ''./public/markers/1700000000000-250000000.patt'' \<noteq> None"
proof -
  have a: "fileFilter tiny_png"
    by (simp add: tiny_png_def fileFilter_def allowedTypes_test_def extname_def basename_def
        toLowerCase_def)
  have ms: "multer_single (upload_filter MemoryBordered) (Some tiny_png) = Inr (Some tiny_png)"
    using a by (simp add: multer_single_def upload_filter_def) (simp add: tiny_png_def)
  have p: "post_bordered plain_lib test_env (Some tiny_png) empty_world
      = generate_marker_bordered plain_lib test_env (Some tiny_png) empty_world"
    by (simp add: post_bordered_def ms)
  have b: "buffer tiny_png = Encoded PNG (flat_image 10 10 3 7)"
    by (simp add: tiny_png_def)
  have c: "0 < bands (flat_image 10 10 3 7)"
    by (simp add: flat_image_def)
  have w: "\<not> write_fails empty_world path" for path
    by (simp add: empty_world_def)
  have d: "width (flat_image 10 10 3 7) < 300" "height (flat_image 10 10 3 7) < 300"
    by (simp_all add: flat_image_def)
  show ?thesis
    using generate_marker_bordered_ok [OF b c w w, of plain_lib test_env] b d
    unfolding p env_now_text env_draw_text by simp
qed

text \<open>
  C9, amended. In the browser client, an image whose width or height is below 300 pixels
  is refused by the click handler of the start button: the error is shown in an alert,
  the upload screen comes back, and the compiler is not called, so no compiled data is
  stored.
\<close>

theorem client_rejects_small_image:
  assumes "selectedFile st = Some file"
    and "loadImage ce file = Inr img"
    and "pic_width img < 300 \<or> pic_height img < 300"
  shows "alerts (start_click ce st) = alerts st @ [StartFailed ImageTooSmall]
     \<and> screen (start_click ce st) = UploadScreen
     \<and> compiledData (start_click ce st) = compiledData st
     \<and> client_log (start_click ce st) = client_log st @ [''AR start'', ''image size'', ''AR start failed'']"
  using assms
  by (simp add: start_click_def Let_def start_failed_def log_line_def)

theorem client_rejects_small_image_witness:
  "alerts (start_click
      \<lparr>loadImage = \<lambda>f. Inr \<lparr>pic_width = 299, pic_height = 1000\<rparr>,
       compiler_run = \<lambda>p. ([], Compiled ''compiled''), scene_start = \<lambda>d. Started\<rparr>
      \<lparr>selectedFile = Some ''card.png'', compiledData = None, screen = UploadScreen,
       alerts = [], client_log = []\<rparr>) = [StartFailed ImageTooSmall]
   \<and> compiledData (start_click
      \<lparr>loadImage = \<lambda>f. Inr \<lparr>pic_width = 299, pic_height = 1000\<rparr>,
       compiler_run = \<lambda>p. ([], Compiled ''compiled''), scene_start = \<lambda>d. Started\<rparr>
      \<lparr>selectedFile = Some ''card.png'', compiledData = None, screen = UploadScreen,
       alerts = [], client_log = []\<rparr>) = None"
  using client_rejects_small_image
    [of "\<lparr>selectedFile = Some ''card.png'', compiledData = None, screen = UploadScreen,
          alerts = [], client_log = []\<rparr>" "''card.png''"
        "\<lparr>loadImage = \<lambda>f. Inr \<lparr>pic_width = 299, pic_height = 1000\<rparr>,
          compiler_run = \<lambda>p. ([], Compiled ''compiled''), scene_start = \<lambda>d. Started\<rparr>"
        "\<lparr>pic_width = 299, pic_height = 1000\<rparr>"]
  by simp

end
